theory Spec2Isabelle
  imports Complex_Main
begin

section \<open>Physics.js: the CRS accumulator and the geometry helpers\<close>

text \<open>
  JavaScript numbers are modelled as \<open>real\<close> (the counters \<open>score\<close>, \<open>combo\<close>,
  \<open>level\<close> as \<open>int\<close>): rounding of doubles is not part of the model. Objects become
  records whose updated copy is returned; a method that both mutates and returns a value
  returns a pair. Drawing code, the particle system, the screen shake, the HUD and the DOM
  overlays never feed back into the simulation and are left out.
\<close>

record Clot =
  clot_x :: real
  clot_y :: real
  baseRadius :: real
  clot_radius :: real
  minRadius :: real
  shrinkAmount :: real
  clot_speed :: real
  residenceTime :: real
  hitFlash :: real
  clot_vx :: real
  dropsPowerUp :: bool

text \<open>\<open>getScale() { return this.radius / this.baseRadius; }\<close>\<close>

definition getScale :: "Clot \<Rightarrow> real" where
  "getScale c = clot_radius c / baseRadius c"

text \<open>
  \<open>CRSCalculator.update\<close> accepts any object with a \<open>radius\<close>: it calls \<open>getScale\<close>
  when the object has that method and falls back to \<open>radius / 50\<close> otherwise.
\<close>

datatype crs_body = WithScale Clot | RadiusOnly real

fun bodyScale :: "crs_body \<Rightarrow> real" where
  "bodyScale (WithScale c) = getScale c"
| "bodyScale (RadiusOnly r) = r / 50"

record CRSCalculator =
  crsValue :: real
  maxCRS :: real
  recoveryRate :: real

definition new_CRSCalculator :: CRSCalculator where
  "new_CRSCalculator = \<lparr>crsValue = 0, maxCRS = 100, recoveryRate = 5\<rparr>"

definition residenceContribution :: "real \<Rightarrow> crs_body \<Rightarrow> real" where
  "residenceContribution deltaTime clot =
     (let scale = bodyScale clot;
          mass = scale * scale
      in mass * (deltaTime / 1000) * 2)"

definition CRSCalculator_update :: "crs_body list \<Rightarrow> real \<Rightarrow> CRSCalculator \<Rightarrow> CRSCalculator" where
  "CRSCalculator_update clots deltaTime c =
     (let crsIncrease = foldl (\<lambda>acc clot. acc + residenceContribution deltaTime clot) 0 clots
      in c\<lparr>crsValue := min (maxCRS c) (crsValue c + crsIncrease)\<rparr>)"

definition onClotDestroyed :: "real \<Rightarrow> CRSCalculator \<Rightarrow> CRSCalculator" where
  "onClotDestroyed clotScale c =
     (let reduction = recoveryRate c * clotScale
      in c\<lparr>crsValue := max 0 (crsValue c - reduction)\<rparr>)"

definition getCRSPercentage :: "CRSCalculator \<Rightarrow> real" where
  "getCRSPercentage c = (crsValue c / maxCRS c) * 100"

definition isCritical :: "CRSCalculator \<Rightarrow> bool" where
  "isCritical c = (crsValue c \<ge> 70)"

definition isFailed :: "CRSCalculator \<Rightarrow> bool" where
  "isFailed c = (crsValue c \<ge> maxCRS c)"

definition crs_reset :: "CRSCalculator \<Rightarrow> CRSCalculator" where
  "crs_reset c = c\<lparr>crsValue := 0\<rparr>"

text \<open>A call sequence on one calculator, for statements about every sequence of calls.\<close>

datatype crs_call = CallUpdate "crs_body list" real | CallOnClotDestroyed real

fun apply_call :: "CRSCalculator \<Rightarrow> crs_call \<Rightarrow> CRSCalculator" where
  "apply_call c (CallUpdate clots deltaTime) = CRSCalculator_update clots deltaTime c"
| "apply_call c (CallOnClotDestroyed clotScale) = onClotDestroyed clotScale c"

fun call_nonneg :: "crs_call \<Rightarrow> bool" where
  "call_nonneg (CallUpdate clots deltaTime) = (0 \<le> deltaTime)"
| "call_nonneg (CallOnClotDestroyed clotScale) = (0 \<le> clotScale)"

definition crs_calls :: "crs_call list \<Rightarrow> CRSCalculator \<Rightarrow> CRSCalculator" where
  "crs_calls calls c = foldl apply_call c calls"

definition circleCollision :: "real \<Rightarrow> real \<Rightarrow> real \<Rightarrow> real \<Rightarrow> real \<Rightarrow> real \<Rightarrow> bool" where
  "circleCollision x1 y1 r1 x2 y2 r2 =
     (let dx = x2 - x1;
          dy = y2 - y1;
          distance = sqrt (dx * dx + dy * dy)
      in distance < r1 + r2)"

definition lerp :: "real \<Rightarrow> real \<Rightarrow> real \<Rightarrow> real" where
  "lerp start end' factor = start + (end' - start) * factor"

section \<open>Main.js: the entities\<close>

datatype game_state = MENU | PLAYING | PAUSED | LEVEL_COMPLETE | GAME_OVER | SCIENCE_MODAL

datatype powerup_key = RAPID_FIRE | HEAL | MULTI_SHOT | SHIELD

text \<open>\<open>POWERUP_TYPES[key].duration\<close>\<close>

fun duration :: "powerup_key \<Rightarrow> real" where
  "duration RAPID_FIRE = 5000"
| "duration HEAL = 0"
| "duration MULTI_SHOT = 6000"
| "duration SHIELD = 4000"

text \<open>\<open>LEVELS.length\<close>; the entries themselves are read by no code of the frame loop.\<close>

definition LEVELS_length :: int where
  "LEVELS_length = 3"

record Player =
  player_x :: real
  player_y :: real
  player_width :: real
  player_height :: real
  targetX :: real
  lerpFactor :: real
  pulseTime :: real

definition new_Player :: "real \<Rightarrow> real \<Rightarrow> Player" where
  "new_Player canvasWidth canvasHeight =
     \<lparr>player_x = canvasWidth / 2, player_y = canvasHeight - 80, player_width = 50,
      player_height = 30, targetX = canvasWidth / 2, lerpFactor = 0.12, pulseTime = 0\<rparr>"

definition Player_update :: "real \<Rightarrow> real \<Rightarrow> Player \<Rightarrow> Player" where
  "Player_update deltaTime canvasWidth p =
     (let x1 = lerp (player_x p) (targetX p) (lerpFactor p);
          halfWidth = player_width p / 2;
          x2 = max halfWidth (min (canvasWidth - halfWidth) x1)
      in p\<lparr>player_x := x2, pulseTime := pulseTime p + deltaTime\<rparr>)"

definition setTarget :: "real \<Rightarrow> Player \<Rightarrow> Player" where
  "setTarget x p = p\<lparr>targetX := x\<rparr>"

text \<open>A pulse; its \<open>trail\<close> is read by \<open>draw\<close> only and is not modelled.\<close>

record Pulse =
  pulse_x :: real
  pulse_y :: real
  pulse_speed :: real
  pulse_radius :: real
  life :: real

definition new_Pulse :: "real \<Rightarrow> real \<Rightarrow> Pulse" where
  "new_Pulse x y = \<lparr>pulse_x = x, pulse_y = y, pulse_speed = 12, pulse_radius = 8, life = 1\<rparr>"

text \<open>\<open>Pulse.update\<close> moves the pulse and returns whether it is still on the playfield.\<close>

definition Pulse_update :: "Pulse \<Rightarrow> bool \<times> Pulse" where
  "Pulse_update p =
     (let p' = p\<lparr>pulse_y := pulse_y p - pulse_speed p\<rparr>
      in (pulse_y p' > - pulse_radius p', p'))"

text \<open>
  \<open>Math.random()\<close> is an oracle \<open>rnd :: nat \<Rightarrow> real\<close> read at a position that the
  caller advances; the source's draws lie in \<open>[0, 1)\<close>. Only the draws that feed a
  modelled field are consumed (those for \<open>wobbleOffset\<close>, \<open>fibrinStrands\<close>,
  \<open>platelets\<close> and \<open>pulsePhase\<close> feed drawing data only).
  The constructor of \<open>Clot\<close> draws \<open>baseRadius\<close>, \<open>shrinkAmount\<close>, \<open>speed\<close>, \<open>vx\<close>
  and \<open>dropsPowerUp\<close>, in this order.
\<close>

definition new_Clot :: "real \<Rightarrow> real \<Rightarrow> real \<Rightarrow> (nat \<Rightarrow> real) \<Rightarrow> nat \<Rightarrow> Clot" where
  "new_Clot x y difficultyMultiplier rnd k =
     (let base = 45 + rnd k * 35
      in \<lparr>clot_x = x, clot_y = y, baseRadius = base, clot_radius = base, minRadius = 10,
          shrinkAmount = 5 + rnd (k + 1) * 3,
          clot_speed = (0.4 + rnd (k + 2) * 0.4) * (1 + (difficultyMultiplier - 1) * 0.7),
          residenceTime = 0, hitFlash = 0,
          clot_vx = (rnd (k + 3) - 0.5) * 0.5,
          dropsPowerUp = (rnd (k + 4) < 0.15)\<rparr>)"

definition Clot_update :: "real \<Rightarrow> real \<Rightarrow> Clot \<Rightarrow> Clot" where
  "Clot_update deltaTime canvasWidth c =
     (let y1 = clot_y c + clot_speed c;
          x1 = clot_x c + clot_vx c;
          vx1 = (if x1 < clot_radius c \<or> x1 > canvasWidth - clot_radius c
                 then clot_vx c * (- 1) else clot_vx c);
          x2 = max (clot_radius c) (min (canvasWidth - clot_radius c) x1);
          flash = (if hitFlash c > 0 then hitFlash c - deltaTime * 0.01 else hitFlash c)
      in c\<lparr>clot_x := x2, clot_y := y1, clot_vx := vx1,
           residenceTime := residenceTime c + deltaTime, hitFlash := flash\<rparr>)"

text \<open>\<open>Clot.hit\<close>: shrink, and report whether the clot is now destroyed.\<close>

definition hit :: "Clot \<Rightarrow> bool \<times> Clot" where
  "hit c =
     (let c' = c\<lparr>hitFlash := 1, clot_radius := clot_radius c - shrinkAmount c\<rparr>
      in (clot_radius c' \<le> minRadius c', c'))"

text \<open>A sequence of \<open>n\<close> calls of \<open>hit\<close> on one clot.\<close>

fun hits :: "nat \<Rightarrow> Clot \<Rightarrow> Clot" where
  "hits 0 c = c"
| "hits (Suc n) c = snd (hit (hits n c))"

text \<open>
  A power-up. \<open>typeKey\<close> is \<open>types[Math.floor(Math.random() * types.length)]\<close> over the
  keys of \<open>POWERUP_TYPES\<close> in their order; an index outside the array reads
  \<open>undefined\<close>, here \<open>None\<close>.
\<close>

record PowerUp =
  pu_x :: real
  pu_y :: real
  pu_radius :: real
  pu_speed :: real
  typeKey :: "powerup_key option"

definition types :: "powerup_key list" where
  "types = [RAPID_FIRE, HEAL, MULTI_SHOT, SHIELD]"

definition new_PowerUp :: "real \<Rightarrow> real \<Rightarrow> real \<Rightarrow> PowerUp" where
  "new_PowerUp x y r =
     (let i = \<lfloor>r * real (length types)\<rfloor>
      in \<lparr>pu_x = x, pu_y = y, pu_radius = 18, pu_speed = 1.5,
          typeKey = (if 0 \<le> i \<and> i < int (length types) then Some (types ! nat i) else None)\<rparr>)"

definition PowerUp_update :: "real \<Rightarrow> PowerUp \<Rightarrow> bool \<times> PowerUp" where
  "PowerUp_update deltaTime pu =
     (let pu' = pu\<lparr>pu_y := pu_y pu + pu_speed pu\<rparr>
      in (pu_y pu' < 1000, pu'))"

section \<open>Main.js: the game\<close>

record ActivePowerUps =
  rapidFire :: real
  multiShot :: real
  shield :: real

text \<open>
  The fields of \<open>Game\<close> that the simulation reads or writes. \<open>autoFireTimer\<close> is not
  set by the constructor: it is \<open>undefined\<close> (\<open>None\<close>) until the first frame.
  \<open>rng\<close> and \<open>rngPos\<close> are the oracle for \<open>Math.random()\<close> and its read position.
\<close>

record Game =
  canvas_width :: real
  canvas_height :: real
  player :: Player
  pulses :: "Pulse list"
  clots :: "Clot list"
  powerUps :: "PowerUp list"
  crs :: CRSCalculator
  state :: game_state
  level :: int
  score :: int
  pulseCooldown :: real
  spawnTimer :: real
  lastTime :: real
  gameTime :: real
  wasCritical :: bool
  difficultyTimer :: real
  difficultyLevel :: int
  difficultyMultiplier :: real
  combo :: int
  comboTimer :: real
  maxCombo :: int
  activePowerUps :: ActivePowerUps
  autoFireTimer :: "real option"
  rng :: "nat \<Rightarrow> real"
  rngPos :: nat

definition new_Game :: "real \<Rightarrow> real \<Rightarrow> (nat \<Rightarrow> real) \<Rightarrow> Game" where
  "new_Game canvasWidth canvasHeight rnd =
     \<lparr>canvas_width = canvasWidth, canvas_height = canvasHeight,
      player = new_Player canvasWidth canvasHeight,
      pulses = [], clots = [], powerUps = [],
      crs = new_CRSCalculator,
      state = MENU, level = 0, score = 0, pulseCooldown = 0, spawnTimer = 0,
      lastTime = 0, gameTime = 0, wasCritical = False,
      difficultyTimer = 0, difficultyLevel = 0, difficultyMultiplier = 1,
      combo = 0, comboTimer = 0, maxCombo = 0,
      activePowerUps = \<lparr>rapidFire = 0, multiShot = 0, shield = 0\<rparr>,
      autoFireTimer = None,
      rng = rnd, rngPos = 0\<rparr>"

definition fire :: "Game \<Rightarrow> Game" where
  "fire g =
     (if state g \<noteq> PLAYING then g
      else if length (pulses g) < 20 then
        (let px = player_x (player g);
             py = player_y (player g) - player_height (player g) / 2
         in if multiShot (activePowerUps g) > 0
            then g\<lparr>pulses := pulses g @ [new_Pulse (px - 15) py, new_Pulse px py, new_Pulse (px + 15) py]\<rparr>
            else g\<lparr>pulses := pulses g @ [new_Pulse px py]\<rparr>)
      else g)"

definition startGame :: "Game \<Rightarrow> Game" where
  "startGame g =
     g\<lparr>state := PLAYING, level := 0, score := 0,
       pulses := [], clots := [], powerUps := [],
       crs := crs_reset (crs g),
       spawnTimer := 0, pulseCooldown := 0, wasCritical := False,
       difficultyTimer := 0, difficultyLevel := 0, difficultyMultiplier := 1,
       combo := 0, comboTimer := 0, maxCombo := 0,
       activePowerUps := \<lparr>rapidFire = 0, multiShot = 0, shield = 0\<rparr>\<rparr>"

definition nextLevel :: "Game \<Rightarrow> Game" where
  "nextLevel g =
     (let g1 = g\<lparr>level := level g + 1\<rparr>
      in if level g1 \<ge> LEVELS_length then g1\<lparr>state := SCIENCE_MODAL\<rparr>
         else g1\<lparr>state := PLAYING, clots := [], pulses := [], spawnTimer := 0,
                 difficultyTimer := 0, difficultyLevel := 0, difficultyMultiplier := 1\<rparr>)"

definition closeModal :: "Game \<Rightarrow> Game" where
  "closeModal g = g\<lparr>state := MENU\<rparr>"

text \<open>\<open>handleMouse\<close> and \<open>handleTouch\<close>, with the canvas coordinate already computed.\<close>

definition handleMouse :: "real \<Rightarrow> Game \<Rightarrow> Game" where
  "handleMouse x g =
     (if state g \<noteq> PLAYING then g else g\<lparr>player := setTarget x (player g)\<rparr>)"

definition handleTouch :: "real \<Rightarrow> bool \<Rightarrow> Game \<Rightarrow> Game" where
  "handleTouch x touchstart g =
     (if state g \<noteq> PLAYING then g
      else let g1 = g\<lparr>player := setTarget x (player g)\<rparr>
           in if touchstart then fire g1 else g1)"

definition spawnClot :: "Game \<Rightarrow> Game" where
  "spawnClot g =
     (let k = rngPos g;
          x = 30 + rng g k * (canvas_width g - 60);
          y = - 80
      in g\<lparr>clots := clots g @ [new_Clot x y (difficultyMultiplier g) (rng g) (k + 1)],
           rngPos := k + 6\<rparr>)"

definition applyPowerUp :: "powerup_key option \<Rightarrow> Game \<Rightarrow> Game" where
  "applyPowerUp key g =
     (let g1 = (case key of
                  Some RAPID_FIRE \<Rightarrow> g\<lparr>activePowerUps := (activePowerUps g)\<lparr>rapidFire := duration RAPID_FIRE\<rparr>\<rparr>
                | Some HEAL \<Rightarrow> g\<lparr>crs := (crs g)\<lparr>crsValue := max 0 (crsValue (crs g) - 25)\<rparr>\<rparr>
                | Some MULTI_SHOT \<Rightarrow> g\<lparr>activePowerUps := (activePowerUps g)\<lparr>multiShot := duration MULTI_SHOT\<rparr>\<rparr>
                | Some SHIELD \<Rightarrow> g\<lparr>activePowerUps := (activePowerUps g)\<lparr>shield := duration SHIELD\<rparr>\<rparr>
                | None \<Rightarrow> g)
      in g1\<lparr>score := score g1 + 100\<rparr>)"

subsection \<open>checkCollisions\<close>

text \<open>
  The scan keeps two index sets beside the game. \<open>hitClot\<close> is the body of the
  \<open>if (circleCollision(...))\<close> for pulse index \<open>p_i\<close> and clot index \<open>c_i\<close>,
  \<open>testPair\<close> the body of the inner \<open>forEach\<close>, \<open>scanClots\<close> the inner
  \<open>forEach\<close> and the body of the outer one. Both loops run over the indices of arrays
  whose length the scan does not change, so the reads by index are in range.
\<close>

record CollisionScan =
  scan_game :: Game
  pulsesToRemove :: "nat set"
  clotsToRemove :: "nat set"

definition hitClot :: "nat \<Rightarrow> nat \<Rightarrow> CollisionScan \<Rightarrow> CollisionScan" where
  "hitClot p_i c_i s =
     (let g = scan_game s;
          g1 = g\<lparr>combo := combo g + 1, comboTimer := 1500\<rparr>;
          g2 = (if combo g1 > maxCombo g1 then g1\<lparr>maxCombo := combo g1\<rparr> else g1);
          comboBonus = min (combo g2) 10;
          g3 = g2\<lparr>score := score g2 + 5 * comboBonus\<rparr>;
          (destroyed, clot) = hit (clots g3 ! c_i);
          g4 = g3\<lparr>clots := (clots g3)[c_i := clot]\<rparr>;
          s1 = s\<lparr>pulsesToRemove := insert p_i (pulsesToRemove s)\<rparr>
      in if destroyed then
           (let g5 = g4\<lparr>score := score g4 + 50 * comboBonus,
                        crs := onClotDestroyed (getScale clot) (crs g4)\<rparr>;
                g6 = (if dropsPowerUp clot
                      then g5\<lparr>powerUps := powerUps g5 @ [new_PowerUp (clot_x clot) (clot_y clot) (rng g5 (rngPos g5))],
                              rngPos := rngPos g5 + 1\<rparr>
                      else g5)
            in s1\<lparr>scan_game := g6, clotsToRemove := insert c_i (clotsToRemove s1)\<rparr>)
         else s1\<lparr>scan_game := g4\<rparr>)"

definition collides :: "Pulse \<Rightarrow> Clot \<Rightarrow> bool" where
  "collides pulse clot =
     circleCollision (pulse_x pulse) (pulse_y pulse) (pulse_radius pulse)
       (clot_x clot) (clot_y clot) (clot_radius clot)"

definition testPair :: "nat \<Rightarrow> nat \<Rightarrow> CollisionScan \<Rightarrow> CollisionScan" where
  "testPair p_i c_i s =
     (if collides (pulses (scan_game s) ! p_i) (clots (scan_game s) ! c_i)
      then hitClot p_i c_i s else s)"

definition scanClots :: "nat \<Rightarrow> CollisionScan \<Rightarrow> CollisionScan" where
  "scanClots p_i s = fold (testPair p_i) [0..<length (clots (scan_game s))] s"

definition removeIndices :: "nat set \<Rightarrow> 'a list \<Rightarrow> 'a list" where
  "removeIndices S xs = map fst (filter (\<lambda>(x, i). i \<notin> S) (zip xs [0..<length xs]))"

definition startScan :: "Game \<Rightarrow> CollisionScan" where
  "startScan g = \<lparr>scan_game = g, pulsesToRemove = {}, clotsToRemove = {}\<rparr>"

definition scanPulses :: "Game \<Rightarrow> CollisionScan" where
  "scanPulses g = fold scanClots [0..<length (pulses g)] (startScan g)"

definition checkCollisions :: "Game \<Rightarrow> Game" where
  "checkCollisions g =
     (let s = scanPulses g;
          g' = scan_game s
      in g'\<lparr>pulses := removeIndices (pulsesToRemove s) (pulses g'),
            clots := removeIndices (clotsToRemove s) (clots g')\<rparr>)"

subsection \<open>update\<close>

text \<open>
  \<open>Game.update\<close> is one method; its commented blocks are the definitions below, in the
  order of the source, and \<open>update\<close> composes them. \<open>preCollision\<close> is the part
  before the call of \<open>checkCollisions\<close> and \<open>postCollision\<close> the part after it.
\<close>

definition tickDifficulty :: "real \<Rightarrow> Game \<Rightarrow> Game" where
  "tickDifficulty deltaTime g =
     (let g1 = g\<lparr>difficultyTimer := difficultyTimer g + deltaTime\<rparr>;
          newDifficultyLevel = \<lfloor>difficultyTimer g1 / 5000\<rfloor>
      in if newDifficultyLevel > difficultyLevel g1
         then g1\<lparr>difficultyLevel := newDifficultyLevel,
                 difficultyMultiplier := min (1.0 + real_of_int newDifficultyLevel * 0.4) 4.0\<rparr>
         else g1)"

text \<open>\<open>this.autoFireTimer || 0\<close>: \<open>undefined\<close> reads as 0.\<close>

definition autoFire :: "real \<Rightarrow> Game \<Rightarrow> Game" where
  "autoFire deltaTime g =
     (let t = (case autoFireTimer g of None \<Rightarrow> 0 | Some v \<Rightarrow> v) + deltaTime;
          g1 = g\<lparr>autoFireTimer := Some t\<rparr>;
          fireRate = (if rapidFire (activePowerUps g1) > 0 then 75 else 120)
      in if t \<ge> fireRate then (fire g1)\<lparr>autoFireTimer := Some 0\<rparr> else g1)"

definition updatePulses :: "Game \<Rightarrow> Game" where
  "updatePulses g = g\<lparr>pulses := map snd (filter fst (map Pulse_update (pulses g)))\<rparr>"

text \<open>The two extra spawns draw a random number only when the level test before \<open>&&\<close> holds.\<close>

definition extraSpawn :: "int \<Rightarrow> real \<Rightarrow> Game \<Rightarrow> Game" where
  "extraSpawn minLevel chance g =
     (if difficultyLevel g \<ge> minLevel
      then (let r = rng g (rngPos g);
                g1 = g\<lparr>rngPos := rngPos g + 1\<rparr>
            in if r < chance then spawnClot g1 else g1)
      else g)"

definition spawnClots :: "real \<Rightarrow> Game \<Rightarrow> Game" where
  "spawnClots deltaTime g =
     (let g1 = g\<lparr>spawnTimer := spawnTimer g + deltaTime\<rparr>;
          baseSpawnRate = 2500;
          adjustedSpawnRate = baseSpawnRate / difficultyMultiplier g1
      in if spawnTimer g1 \<ge> adjustedSpawnRate
         then extraSpawn 5 0.25 (extraSpawn 3 0.3 ((spawnClot g1)\<lparr>spawnTimer := 0\<rparr>))
         else g1)"

definition updateClots :: "real \<Rightarrow> Game \<Rightarrow> Game" where
  "updateClots deltaTime g = g\<lparr>clots := map (Clot_update deltaTime (canvas_width g)) (clots g)\<rparr>"

definition preCollision :: "real \<Rightarrow> Game \<Rightarrow> Game" where
  "preCollision deltaTime g =
     (let g1 = g\<lparr>gameTime := gameTime g + deltaTime\<rparr>;
          g2 = tickDifficulty deltaTime g1;
          g3 = g2\<lparr>player := Player_update deltaTime (canvas_width g2) (player g2)\<rparr>;
          g4 = autoFire deltaTime g3;
          g5 = updatePulses g4;
          g6 = spawnClots deltaTime g5
      in updateClots deltaTime g6)"

text \<open>
  The filter that removes the clots past the bottom edge; its callback adds the penalty
  to \<open>crs.crsValue\<close> for each clot it drops.
\<close>

definition cullStep :: "real \<Rightarrow> Clot \<Rightarrow> Clot list \<times> CRSCalculator \<Rightarrow> Clot list \<times> CRSCalculator" where
  "cullStep canvasHeight clot acc =
     (if clot_y clot > canvasHeight + clot_radius clot
      then (let penalty = 25 + (getScale clot * 15)
            in (fst acc, (snd acc)\<lparr>crsValue := crsValue (snd acc) + penalty\<rparr>))
      else (fst acc @ [clot], snd acc))"

definition cullEscaped :: "Game \<Rightarrow> Game" where
  "cullEscaped g =
     (let r = fold (cullStep (canvas_height g)) (clots g) ([], crs g)
      in g\<lparr>clots := fst r, crs := snd r\<rparr>)"

definition updateCRS :: "real \<Rightarrow> Game \<Rightarrow> Game" where
  "updateCRS deltaTime g = g\<lparr>crs := CRSCalculator_update (map WithScale (clots g)) deltaTime (crs g)\<rparr>"

definition checkCritical :: "Game \<Rightarrow> Game" where
  "checkCritical g =
     (if isCritical (crs g)
      then (if \<not> wasCritical g then g\<lparr>wasCritical := True\<rparr> else g)
      else g\<lparr>wasCritical := False\<rparr>)"

definition checkGameOver :: "Game \<Rightarrow> Game" where
  "checkGameOver g = (if isFailed (crs g) then g\<lparr>state := GAME_OVER\<rparr> else g)"

definition updatePowerUps :: "real \<Rightarrow> Game \<Rightarrow> Game" where
  "updatePowerUps deltaTime g =
     g\<lparr>powerUps := map snd (filter fst (map (PowerUp_update deltaTime) (powerUps g)))\<rparr>"

definition collectStep :: "PowerUp \<Rightarrow> PowerUp list \<times> Game \<Rightarrow> PowerUp list \<times> Game" where
  "collectStep pu acc =
     (let g = snd acc;
          dx = pu_x pu - player_x (player g);
          dy = pu_y pu - player_y (player g);
          dist = sqrt (dx * dx + dy * dy)
      in if dist < pu_radius pu + 30
         then (fst acc, applyPowerUp (typeKey pu) g)
         else (fst acc @ [pu], g))"

definition collectPowerUps :: "Game \<Rightarrow> Game" where
  "collectPowerUps g =
     (let r = fold collectStep (powerUps g) ([], g)
      in (snd r)\<lparr>powerUps := fst r\<rparr>)"

definition updateComboTimer :: "real \<Rightarrow> Game \<Rightarrow> Game" where
  "updateComboTimer deltaTime g =
     (if combo g > 0
      then (let g1 = g\<lparr>comboTimer := comboTimer g - deltaTime\<rparr>
            in if comboTimer g1 \<le> 0 then g1\<lparr>combo := 0\<rparr> else g1)
      else g)"

text \<open>The body of \<open>for (const key in this.activePowerUps)\<close> for one timer value.\<close>

definition tickTimer :: "real \<Rightarrow> real \<Rightarrow> real" where
  "tickTimer deltaTime t = (if t > 0 then t - deltaTime else t)"

definition updatePowerUpTimers :: "real \<Rightarrow> Game \<Rightarrow> Game" where
  "updatePowerUpTimers deltaTime g =
     g\<lparr>activePowerUps :=
         \<lparr>rapidFire = tickTimer deltaTime (rapidFire (activePowerUps g)),
          multiShot = tickTimer deltaTime (multiShot (activePowerUps g)),
          shield = tickTimer deltaTime (shield (activePowerUps g))\<rparr>\<rparr>"

definition postCollision :: "real \<Rightarrow> Game \<Rightarrow> Game" where
  "postCollision deltaTime g =
     (let g1 = cullEscaped g;
          g2 = updateCRS deltaTime g1;
          g3 = checkCritical g2;
          g4 = checkGameOver g3;
          g5 = updatePowerUps deltaTime g4;
          g6 = collectPowerUps g5;
          g7 = updateComboTimer deltaTime g6
      in updatePowerUpTimers deltaTime g7)"

definition update :: "real \<Rightarrow> Game \<Rightarrow> Game" where
  "update deltaTime g =
     (if state g \<noteq> PLAYING then g
      else postCollision deltaTime (checkCollisions (preCollision deltaTime g)))"

text \<open>\<open>gameLoop\<close> caps the elapsed time at 32 ms before it calls \<open>update\<close>.\<close>

definition gameLoop :: "real \<Rightarrow> Game \<Rightarrow> Game" where
  "gameLoop currentTime g =
     (let deltaTime = currentTime - lastTime g;
          g1 = g\<lparr>lastTime := currentTime\<rparr>;
          cappedDelta = min deltaTime 32
      in update cappedDelta g1)"

text \<open>A run of frames: \<open>update\<close> called with each elapsed time in turn.\<close>

definition frames :: "real list \<Rightarrow> Game \<Rightarrow> Game" where
  "frames dts g = fold update dts g"

section \<open>Predicates of the statements\<close>

text \<open>A calculator as the constructor makes it, with its value in range.\<close>

definition crs_ok :: "CRSCalculator \<Rightarrow> bool" where
  "crs_ok c = (0 \<le> crsValue c \<and> crsValue c \<le> 100 \<and> maxCRS c = 100 \<and> recoveryRate c = 5)"

text \<open>
  The calls a clot receives during its life: \<open>hit()\<close> from the collision scan and
  \<open>update(deltaTime, canvasWidth)\<close> from the frame loop.
\<close>

datatype clot_call = CallHit | CallClotUpdate real real

fun apply_clot_call :: "Clot \<Rightarrow> clot_call \<Rightarrow> Clot" where
  "apply_clot_call c CallHit = snd (hit c)"
| "apply_clot_call c (CallClotUpdate deltaTime canvasWidth) = Clot_update deltaTime canvasWidth c"

definition clot_calls :: "clot_call list \<Rightarrow> Clot \<Rightarrow> Clot" where
  "clot_calls calls c = foldl apply_clot_call c calls"

subsection \<open>The events that drive the game\<close>

text \<open>
  \<open>resize\<close> (the window's resize listener) and the DOM events that \<open>setupInput\<close>,
  \<open>setupButtons\<close> and \<open>requestAnimationFrame\<close> wire to the methods above, with
  the canvas coordinate or the frame's time stamp as argument.
\<close>

definition resize :: "real \<Rightarrow> real \<Rightarrow> Game \<Rightarrow> Game" where
  "resize clientWidth clientHeight g =
     g\<lparr>canvas_width := clientWidth, canvas_height := clientHeight,
       player := (player g)\<lparr>player_y := clientHeight - 80\<rparr>\<rparr>"

datatype event =
    Click
  | MouseMove real
  | TouchStart real
  | TouchMove real
  | StartButton
  | RestartButton
  | NextLevelButton
  | CloseModalButton
  | AnimationFrame real
  | Resize real real

fun handle :: "Game \<Rightarrow> event \<Rightarrow> Game" where
  "handle g Click = fire g"
| "handle g (MouseMove x) = handleMouse x g"
| "handle g (TouchStart x) = handleTouch x True g"
| "handle g (TouchMove x) = handleTouch x False g"
| "handle g StartButton = startGame g"
| "handle g RestartButton = startGame g"
| "handle g NextLevelButton = nextLevel g"
| "handle g CloseModalButton = closeModal g"
| "handle g (AnimationFrame currentTime) = gameLoop currentTime g"
| "handle g (Resize clientWidth clientHeight) = resize clientWidth clientHeight g"

definition run_events :: "event list \<Rightarrow> Game \<Rightarrow> Game" where
  "run_events evs g = foldl handle g evs"

text \<open>What the collision scan leaves as it found it.\<close>

definition scan_kept :: "Game \<Rightarrow> Game \<Rightarrow> bool" where
  "scan_kept g g' =
     (activePowerUps g' = activePowerUps g \<and> state g' = state g
      \<and> maxCRS (crs g') = maxCRS (crs g) \<and> canvas_height g' = canvas_height g
      \<and> player g' = player g \<and> length (clots g') = length (clots g))"

text \<open>Every power-up timer is above the bound \<open>b\<close>.\<close>

definition timers_above :: "real \<Rightarrow> Game \<Rightarrow> bool" where
  "timers_above b g =
     (b < rapidFire (activePowerUps g) \<and> b < multiShot (activePowerUps g) \<and> b < shield (activePowerUps g))"

subsection \<open>Concrete scans\<close>

text \<open>
  A clot that six hits have shrunk from 45 to 15, one hit from destruction, and two games
  at the start of a collision scan: two pulses on that clot, and one pulse on two
  overlapping fresh clots.
\<close>

definition oneHitLeft :: Clot where
  "oneHitLeft = hits 6 (new_Clot 100 100 1 (\<lambda>_. 0) 0)"

definition twoPulsesOneClot :: Game where
  "twoPulsesOneClot =
     (startGame (new_Game 800 600 (\<lambda>_. 0)))
       \<lparr>pulses := [new_Pulse 100 100, new_Pulse 100 100], clots := [oneHitLeft]\<rparr>"


text \<open>
  The state of the inner loop of the scan for pulse \<open>p_i\<close>, started in \<open>s\<close>, after
  the clots before index \<open>k\<close> have been tested.
\<close>

definition pass_inv :: "nat \<Rightarrow> CollisionScan \<Rightarrow> nat \<Rightarrow> CollisionScan \<Rightarrow> bool" where
  "pass_inv p_i s k t =
     (pulses (scan_game t) = pulses (scan_game s)
      \<and> length (clots (scan_game t)) = length (clots (scan_game s))
      \<and> drop k (clots (scan_game t)) = drop k (clots (scan_game s))
      \<and> combo (scan_game t) = combo (scan_game s)
           + int (length (filter (collides (pulses (scan_game s) ! p_i)) (take k (clots (scan_game s)))))
      \<and> pulsesToRemove t =
           (if filter (collides (pulses (scan_game s) ! p_i)) (take k (clots (scan_game s))) = []
            then pulsesToRemove s else insert p_i (pulsesToRemove s))
      \<and> comboTimer (scan_game t) =
           (if filter (collides (pulses (scan_game s) ! p_i)) (take k (clots (scan_game s))) = []
            then comboTimer (scan_game s) else 1500))"



subsection \<open>Frames with and without a hit\<close>

text \<open>
  \<open>noCollision g\<close>: at the collision scan of \<open>g\<close> no pulse intersects a clot.
  \<open>quietFrames ds g\<close>: the frames with elapsed times \<open>ds\<close>, run from \<open>g\<close>, are
  all played (the game is in the Playing state when each starts), have non-negative
  elapsed times and no pulse intersects a clot at their collision scans.
\<close>

definition noCollision :: "Game \<Rightarrow> bool" where
  "noCollision g = list_all (\<lambda>pulse. filter (collides pulse) (clots g) = []) (pulses g)"

fun quietFrames :: "real list \<Rightarrow> Game \<Rightarrow> bool" where
  "quietFrames [] g = True"
| "quietFrames (d # ds) g =
     (state g = PLAYING \<and> 0 \<le> d \<and> noCollision (preCollision d g) \<and> quietFrames ds (update d g))"

text \<open>
  The state of the outer loop of the scan of \<open>g\<close> after the pulses before index \<open>k\<close>
  have made their pass: untouched while none of them met a clot, and with the combo
  timer re-armed and the combo raised once one has.
\<close>

definition scan_inv :: "Game \<Rightarrow> nat \<Rightarrow> CollisionScan \<Rightarrow> bool" where
  "scan_inv g k t =
     (if list_all (\<lambda>pulse. filter (collides pulse) (clots g) = []) (take k (pulses g))
      then t = startScan g
      else pulses (scan_game t) = pulses g \<and> comboTimer (scan_game t) = 1500
           \<and> combo g < combo (scan_game t))"

text \<open>
  \<open>firstHit g k j\<close>: at the collision scan of \<open>g\<close> the first hit is that of pulse
  \<open>k\<close> on clot \<open>j\<close>: no earlier pulse intersects a clot, pulse \<open>k\<close> intersects none
  of the clots before \<open>j\<close>, and it intersects clot \<open>j\<close>.
  \<open>scanUpTo g k j\<close>: the two loops of \<open>checkCollisions\<close> on \<open>g\<close>, run up to and
  including the test of pulse \<open>k\<close> against clot \<open>j\<close>.
\<close>

definition firstHit :: "Game \<Rightarrow> nat \<Rightarrow> nat \<Rightarrow> bool" where
  "firstHit g k j =
     (k < length (pulses g) \<and> j < length (clots g)
      \<and> list_all (\<lambda>pulse. filter (collides pulse) (clots g) = []) (take k (pulses g))
      \<and> filter (collides (pulses g ! k)) (take j (clots g)) = []
      \<and> collides (pulses g ! k) (clots g ! j))"

definition scanUpTo :: "Game \<Rightarrow> nat \<Rightarrow> nat \<Rightarrow> CollisionScan" where
  "scanUpTo g k j = fold (testPair k) [0..<Suc j] (fold scanClots [0..<k] (startScan g))"

text \<open>
  A game in which the next frame of 16 ms brings one pulse onto a clot that this hit
  destroys, while a second, fresh clot waits further down: the game that frame leaves
  (combo 1, the power-up dropped), the games a following frame of 984 ms or of 1484 ms
  leaves (it auto-fires one pulse, which does not reach the waiting clot yet), from either
  of which a frame of 16 ms brings that pulse onto the waiting clot.
\<close>

definition waitingClot :: "real \<Rightarrow> real \<Rightarrow> real \<Rightarrow> Clot" where
  "waitingClot x y t = (new_Clot x y 1 (\<lambda>_. 0) 0)\<lparr>residenceTime := t\<rparr>"

definition comboGame :: Game where
  "comboGame =
     (startGame (new_Game 800 600 (\<lambda>_. 0)))
       \<lparr>pulses := [new_Pulse 100 112], clots := [oneHitLeft, waitingClot 400.75 427.8 0]\<rparr>"

definition afterHitFrame :: Game where
  "afterHitFrame =
     \<lparr>canvas_width = 800, canvas_height = 600,
      player = \<lparr>player_x = 400, player_y = 520, player_width = 50, player_height = 30,
                targetX = 400, lerpFactor = 0.12, pulseTime = 16\<rparr>,
      pulses = [], clots = [waitingClot 400.5 428.2 16],
      powerUps = [\<lparr>pu_x = 99.75, pu_y = 101.9, pu_radius = 18, pu_speed = 1.5,
                   typeKey = Some RAPID_FIRE\<rparr>],
      crs = \<lparr>crsValue = 0.032, maxCRS = 100, recoveryRate = 5\<rparr>,
      state = PLAYING, level = 0, score = 55, pulseCooldown = 0, spawnTimer = 16,
      lastTime = 0, gameTime = 16, wasCritical = False,
      difficultyTimer = 16, difficultyLevel = 0, difficultyMultiplier = 1,
      combo = 1, comboTimer = 1484, maxCombo = 1,
      activePowerUps = \<lparr>rapidFire = 0, multiShot = 0, shield = 0\<rparr>,
      autoFireTimer = Some 16,
      rng = \<lambda>_. 0, rngPos = 1\<rparr>"

definition afterQuietFrame :: Game where
  "afterQuietFrame =
     afterHitFrame
       \<lparr>player := (player afterHitFrame)\<lparr>pulseTime := 1000\<rparr>,
        pulses := [(new_Pulse 400 505)\<lparr>pulse_y := 493\<rparr>],
        clots := [waitingClot 400.25 428.6 1000],
        powerUps := [\<lparr>pu_x = 99.75, pu_y = 103.4, pu_radius = 18, pu_speed = 1.5,
                      typeKey = Some RAPID_FIRE\<rparr>],
        crs := \<lparr>crsValue = 2, maxCRS = 100, recoveryRate = 5\<rparr>,
        spawnTimer := 1000, gameTime := 1000, difficultyTimer := 1000,
        comboTimer := 500, autoFireTimer := Some 0\<rparr>"

definition afterLateFrame :: Game where
  "afterLateFrame =
     afterHitFrame
       \<lparr>player := (player afterHitFrame)\<lparr>pulseTime := 1500\<rparr>,
        pulses := [(new_Pulse 400 505)\<lparr>pulse_y := 493\<rparr>],
        clots := [waitingClot 400.25 428.6 1500],
        powerUps := [\<lparr>pu_x = 99.75, pu_y = 103.4, pu_radius = 18, pu_speed = 1.5,
                      typeKey = Some RAPID_FIRE\<rparr>],
        crs := \<lparr>crsValue = 3, maxCRS = 100, recoveryRate = 5\<rparr>,
        spawnTimer := 1500, gameTime := 1500, difficultyTimer := 1500,
        combo := 0, comboTimer := 0, autoFireTimer := Some 0\<rparr>"

subsection \<open>Escaping clots\<close>

text \<open>
  The game of a frame when \<open>update\<close> reaches the filter that removes escaped clots, and
  a started game whose only clot is already below the canvas, with CRS value \<open>v\<close>.
\<close>

definition scanned :: "real \<Rightarrow> Game \<Rightarrow> Game" where
  "scanned deltaTime g = checkCollisions (preCollision deltaTime g)"

definition escapeGame :: "real \<Rightarrow> Game" where
  "escapeGame v =
     (startGame (new_Game 800 600 (\<lambda>_. 0)))
       \<lparr>clots := [new_Clot 100 700 1 (\<lambda>_. 0) 0], crs := new_CRSCalculator\<lparr>crsValue := v\<rparr>\<rparr>"

section \<open>Theorems\<close>

subsection \<open>The CRS value stays in range\<close>

lemma update_range:
  assumes "0 \<le> deltaTime" "0 \<le> crsValue c" "maxCRS c = 100"
  shows "0 \<le> crsValue (CRSCalculator_update bodies deltaTime c) \<and> crsValue (CRSCalculator_update bodies deltaTime c) \<le> 100"
proof -
  have inc: "0 \<le> foldl (\<lambda>acc clot. acc + residenceContribution deltaTime clot) a bodies" if "0 \<le> a" for a
    using that assms(1)
    by (induction bodies arbitrary: a) (auto simp: residenceContribution_def Let_def)
  from inc [of 0] assms show ?thesis
    by (simp add: CRSCalculator_update_def Let_def)
qed

lemma onClotDestroyed_range:
  assumes "0 \<le> clotScale" "crsValue c \<le> 100" "0 \<le> recoveryRate c"
  shows "0 \<le> crsValue (onClotDestroyed clotScale c) \<and> crsValue (onClotDestroyed clotScale c) \<le> 100"
proof -
  have "0 \<le> recoveryRate c * clotScale" using assms by simp
  with assms show ?thesis by (simp add: onClotDestroyed_def Let_def, linarith)
qed

lemma apply_call_ok:
  assumes "crs_ok c" "call_nonneg call"
  shows "crs_ok (apply_call c call)"
proof (cases call)
  case (CallUpdate bodies deltaTime)
  with assms update_range [of deltaTime c bodies] show ?thesis
    by (simp add: crs_ok_def) (simp add: CRSCalculator_update_def Let_def)
next
  case (CallOnClotDestroyed clotScale)
  with assms onClotDestroyed_range [of clotScale c] show ?thesis
    by (simp add: crs_ok_def) (simp add: onClotDestroyed_def Let_def)
qed

lemma crs_calls_ok:
  assumes "crs_ok c" "\<forall>call \<in> set calls. call_nonneg call"
  shows "crs_ok (crs_calls calls c)"
  using assms unfolding crs_calls_def
  by (induction calls arbitrary: c) (simp_all add: apply_call_ok)

text \<open>
  Claim C1. Start from a reset calculator and make any sequence of calls of \<open>update\<close>
  (with a non-negative \<open>deltaTime\<close>, whatever the clots) and of \<open>onClotDestroyed\<close>
  (with a non-negative scale). After every call of the sequence, that is after each of
  its prefixes, the CRS value lies between 0 and 100.
\<close>

theorem crs_in_range:
  assumes "\<forall>call \<in> set calls. call_nonneg call" and "n \<le> length calls"
  shows "0 \<le> crsValue (crs_calls (take n calls) (crs_reset new_CRSCalculator))
       \<and> crsValue (crs_calls (take n calls) (crs_reset new_CRSCalculator)) \<le> 100"
proof -
  have start: "crs_ok (crs_reset new_CRSCalculator)"
    by (simp add: crs_ok_def crs_reset_def new_CRSCalculator_def)
  have "\<forall>call \<in> set (take n calls). call_nonneg call"
    using assms(1) by (meson in_set_takeD)
  from crs_calls_ok [OF start this] show ?thesis
    by (simp add: crs_ok_def)
qed

theorem crs_in_range_witness:
  "list_all call_nonneg [CallUpdate [RadiusOnly 500] 1000, CallOnClotDestroyed 1, CallOnClotDestroyed 30]
   \<and> (2::nat) \<le> length [CallUpdate [RadiusOnly 500] 1000, CallOnClotDestroyed 1, CallOnClotDestroyed 30]
   \<and> crsValue (crs_calls (take 2 [CallUpdate [RadiusOnly 500] 1000, CallOnClotDestroyed 1, CallOnClotDestroyed 30])
        (crs_reset new_CRSCalculator)) = 95
   \<and> 0 \<le> crsValue (crs_calls (take 2 [CallUpdate [RadiusOnly 500] 1000, CallOnClotDestroyed 1, CallOnClotDestroyed 30])
        (crs_reset new_CRSCalculator))
   \<and> crsValue (crs_calls (take 2 [CallUpdate [RadiusOnly 500] 1000, CallOnClotDestroyed 1, CallOnClotDestroyed 30])
        (crs_reset new_CRSCalculator)) \<le> 100"
  using crs_in_range [of "[CallUpdate [RadiusOnly 500] 1000, CallOnClotDestroyed 1, CallOnClotDestroyed 30]" 2]
  by (simp add: crs_calls_def CRSCalculator_update_def onClotDestroyed_def residenceContribution_def
      crs_reset_def new_CRSCalculator_def Let_def)

subsection \<open>Shrinking a clot\<close>

lemma apply_clot_call_fixed:
  "shrinkAmount (apply_clot_call c call) = shrinkAmount c
   \<and> minRadius (apply_clot_call c call) = minRadius c
   \<and> baseRadius (apply_clot_call c call) = baseRadius c"
  by (cases call) (simp_all add: hit_def Clot_update_def Let_def)

lemma clot_calls_fixed:
  "shrinkAmount (clot_calls calls c) = shrinkAmount c
   \<and> minRadius (clot_calls calls c) = minRadius c
   \<and> baseRadius (clot_calls calls c) = baseRadius c"
  unfolding clot_calls_def
  by (induction calls arbitrary: c) (simp_all add: apply_clot_call_fixed)

lemma new_Clot_fixed:
  "shrinkAmount (new_Clot x y m rnd k) = 5 + rnd (k + 1) * 3
   \<and> minRadius (new_Clot x y m rnd k) = 10
   \<and> clot_radius (new_Clot x y m rnd k) = baseRadius (new_Clot x y m rnd k)"
  by (simp add: new_Clot_def Let_def)

lemma hits_radius: "clot_radius (hits n c) = clot_radius c - real n * shrinkAmount c \<and> shrinkAmount (hits n c) = shrinkAmount c"
  by (induction n) (simp_all add: hit_def Let_def algebra_simps)

text \<open>
  Claim C4. Take any clot the constructor makes (its draw for \<open>shrinkAmount\<close> is not
  negative, as every draw of \<open>Math.random()\<close> is) after any history of \<open>hit\<close> and
  \<open>update\<close> calls. A call of \<open>hit\<close> lowers the radius by exactly the clot's
  \<open>shrinkAmount\<close>, which is \<open>5 + 3 * draw\<close> and never changes; the radius after
  the call is at most the radius before, \<open>update\<close> does not touch it, so over any
  sequence of \<open>hit\<close> calls it is non-increasing (after \<open>n\<close> calls it is the start
  radius minus \<open>n * shrinkAmount\<close>); and \<open>hit\<close> returns true exactly when the
  resulting radius is at most \<open>minRadius\<close>.
\<close>

theorem hit_radius_nonincreasing:
  assumes "0 \<le> rnd (k + 1)"
    and "c = clot_calls calls (new_Clot x y m rnd k)"
  shows "clot_radius (snd (hit c)) = clot_radius c - (5 + rnd (k + 1) * 3)
       \<and> clot_radius (snd (hit c)) \<le> clot_radius c
       \<and> shrinkAmount (snd (hit c)) = shrinkAmount c
       \<and> clot_radius (Clot_update deltaTime canvasWidth c) = clot_radius c
       \<and> fst (hit c) = (clot_radius (snd (hit c)) \<le> minRadius (snd (hit c)))
       \<and> clot_radius (hits (Suc n) c) \<le> clot_radius (hits n c)
       \<and> clot_radius (hits n c) = clot_radius c - real n * shrinkAmount c"
proof -
  have sa: "shrinkAmount c = 5 + rnd (k + 1) * 3"
    using assms(2) clot_calls_fixed [of calls "new_Clot x y m rnd k"] new_Clot_fixed [of x y m rnd k]
    by simp
  have pos: "0 \<le> shrinkAmount c" using sa assms(1) by simp
  have step: "clot_radius (hits (Suc n) c) \<le> clot_radius (hits n c)"
    using pos hits_radius [of n c] by (simp add: hit_def Let_def)
  from sa pos step hits_radius [of n c] show ?thesis
    by (simp add: hit_def Let_def Clot_update_def)
qed

theorem hit_radius_nonincreasing_witness:
  "clot_radius (snd (hit (clot_calls [CallHit, CallClotUpdate 16 800] (new_Clot 100 (- 80) 1 (\<lambda>_. 0) 1)))) = 35
   \<and> clot_radius (clot_calls [CallHit, CallClotUpdate 16 800] (new_Clot 100 (- 80) 1 (\<lambda>_. 0) 1)) = 40
   \<and> fst (hit (clot_calls [CallHit, CallClotUpdate 16 800] (new_Clot 100 (- 80) 1 (\<lambda>_. 0) 1))) = False
   \<and> clot_radius (hits 6 (clot_calls [CallHit, CallClotUpdate 16 800] (new_Clot 100 (- 80) 1 (\<lambda>_. 0) 1))) = 10"
  using hit_radius_nonincreasing [of "\<lambda>_. 0" 1 "clot_calls [CallHit, CallClotUpdate 16 800] (new_Clot 100 (- 80) 1 (\<lambda>_. 0) 1)"
      "[CallHit, CallClotUpdate 16 800]" 100 "- 80" 1 16 800 6]
  by (simp add: clot_calls_def hit_def Clot_update_def new_Clot_def Let_def)

subsection \<open>Score of a hit\<close>


subsection \<open>The collision test without the square root\<close>

lemma circleCollision_iff:
  "circleCollision x1 y1 r1 x2 y2 r2 =
     (0 < r1 + r2 \<and> (x2 - x1) * (x2 - x1) + (y2 - y1) * (y2 - y1) < (r1 + r2) * (r1 + r2))"
proof -
  let ?d = "(x2 - x1) * (x2 - x1) + (y2 - y1) * (y2 - y1)"
  have nn: "0 \<le> ?d" by simp
  show ?thesis
  proof (cases "0 < r1 + r2")
    case True
    then have "(sqrt ?d < r1 + r2) = (?d < (r1 + r2)\<^sup>2)"
      using nn by (metis less_eq_real_def real_sqrt_less_iff real_sqrt_abs abs_of_pos real_sqrt_unique power2_eq_square)
    with True show ?thesis by (simp add: circleCollision_def Let_def power2_eq_square)
  next
    case False
    have "0 \<le> sqrt ?d" using nn by simp
    then have "\<not> sqrt ?d < r1 + r2" using False by linarith
    with False show ?thesis by (simp add: circleCollision_def Let_def)
  qed
qed

subsection \<open>The pulse list along a frame\<close>

lemma fold_preserves:
  assumes "\<And>x s. P s \<Longrightarrow> P (f x s)" and "P s"
  shows "P (fold f xs s)"
  using assms(2) by (induction xs arbitrary: s) (simp_all add: assms(1))

lemma hitClot_pulses: "pulses (scan_game (hitClot p_i c_i s)) = pulses (scan_game s)"
  by (simp add: hitClot_def Let_def split: prod.splits)

lemma testPair_pulses: "pulses (scan_game (testPair p_i c_i s)) = pulses (scan_game s)"
  by (simp add: testPair_def hitClot_pulses)

lemma scanClots_pulses: "pulses (scan_game (scanClots p_i s)) = pulses (scan_game s)"
  unfolding scanClots_def
  by (rule fold_preserves [where P = "\<lambda>t. pulses (scan_game t) = pulses (scan_game s)"])
     (simp_all add: testPair_pulses)

lemma scanPulses_pulses: "pulses (scan_game (scanPulses g)) = pulses g"
proof -
  have "pulses (scan_game (fold scanClots xs (startScan g))) = pulses g" for xs
    by (rule fold_preserves [where P = "\<lambda>t. pulses (scan_game t) = pulses g"])
       (simp_all add: scanClots_pulses startScan_def)
  then show ?thesis by (simp add: scanPulses_def)
qed

lemma length_removeIndices: "length (removeIndices S xs) \<le> length xs"
  unfolding removeIndices_def
  by (simp add: le_trans [OF length_filter_le])

lemma checkCollisions_pulses: "length (pulses (checkCollisions g)) \<le> length (pulses g)"
  using length_removeIndices [of "pulsesToRemove (scanPulses g)" "pulses g"]
  by (simp add: checkCollisions_def Let_def scanPulses_pulses)

lemma fire_length: "length (pulses g) \<le> 22 \<Longrightarrow> length (pulses (fire g)) \<le> 22"
  by (simp add: fire_def Let_def)

lemma collectStep_pulses: "pulses (snd (collectStep pu acc)) = pulses (snd acc)"
  by (simp add: collectStep_def applyPowerUp_def Let_def split: option.splits powerup_key.splits)

lemma collectPowerUps_pulses: "pulses (collectPowerUps g) = pulses g"
proof -
  have "pulses (snd (fold collectStep xs acc)) = pulses (snd acc)" for xs acc
    by (rule fold_preserves [where P = "\<lambda>t. pulses (snd t) = pulses (snd acc)"])
       (simp_all add: collectStep_pulses)
  then show ?thesis by (simp add: collectPowerUps_def Let_def)
qed

lemma postCollision_pulses: "pulses (postCollision deltaTime g) = pulses g"
  by (simp add: postCollision_def Let_def updatePowerUpTimers_def updateComboTimer_def
      collectPowerUps_pulses updatePowerUps_def checkGameOver_def checkCritical_def
      updateCRS_def cullEscaped_def)

lemma spawnClot_pulses: "pulses (spawnClot g) = pulses g"
  by (simp add: spawnClot_def Let_def)

lemma extraSpawn_pulses: "pulses (extraSpawn l c g) = pulses g"
  by (simp add: extraSpawn_def Let_def spawnClot_pulses)

lemma spawnClots_pulses: "pulses (spawnClots deltaTime g) = pulses g"
  by (simp add: spawnClots_def Let_def extraSpawn_pulses spawnClot_pulses)

lemma updatePulses_length: "length (pulses (updatePulses g)) \<le> length (pulses g)"
  by (simp add: updatePulses_def le_trans [OF length_filter_le])

lemma autoFire_length: "length (pulses g) \<le> 22 \<Longrightarrow> length (pulses (autoFire deltaTime g)) \<le> 22"
proof -
  assume a: "length (pulses g) \<le> 22"
  let ?g1 = "g\<lparr>autoFireTimer := Some ((case autoFireTimer g of None \<Rightarrow> 0 | Some v \<Rightarrow> v) + deltaTime)\<rparr>"
  have "length (pulses (fire ?g1)) \<le> 22" using a by (intro fire_length) simp
  with a show ?thesis by (simp add: autoFire_def Let_def)
qed

lemma preCollision_length:
  assumes "length (pulses g) \<le> 22"
  shows "length (pulses (preCollision deltaTime g)) \<le> 22"
proof -
  let ?g2 = "tickDifficulty deltaTime (g\<lparr>gameTime := gameTime g + deltaTime\<rparr>)"
  let ?g3 = "?g2\<lparr>player := Player_update deltaTime (canvas_width ?g2) (player ?g2)\<rparr>"
  have "pulses ?g3 = pulses g" by (simp add: tickDifficulty_def Let_def)
  then have "length (pulses (autoFire deltaTime ?g3)) \<le> 22"
    using assms by (intro autoFire_length) simp
  then have "length (pulses (updatePulses (autoFire deltaTime ?g3))) \<le> 22"
    using updatePulses_length le_trans by blast
  then show ?thesis
    by (simp add: preCollision_def Let_def updateClots_def spawnClots_pulses)
qed

lemma update_length:
  assumes "length (pulses g) \<le> 22"
  shows "length (pulses (update deltaTime g)) \<le> 22"
proof (cases "state g = PLAYING")
  case True
  have "length (pulses (checkCollisions (preCollision deltaTime g))) \<le> 22"
    using preCollision_length [OF assms] checkCollisions_pulses le_trans by blast
  with True show ?thesis by (simp add: update_def postCollision_pulses)
next
  case False
  with assms show ?thesis by (simp add: update_def)
qed

lemma handle_length:
  assumes "length (pulses g) \<le> 22"
  shows "length (pulses (handle g ev)) \<le> 22"
proof (cases ev)
  case Click
  with assms show ?thesis by (simp add: fire_length)
next
  case (MouseMove x)
  with assms show ?thesis by (simp add: handleMouse_def)
next
  case (TouchStart x)
  have "length (pulses (fire (g\<lparr>player := setTarget x (player g)\<rparr>))) \<le> 22"
    using assms by (intro fire_length) simp
  with TouchStart assms show ?thesis by (simp add: handleTouch_def Let_def)
next
  case (TouchMove x)
  with assms show ?thesis by (simp add: handleTouch_def Let_def)
next
  case StartButton
  then show ?thesis by (simp add: startGame_def)
next
  case RestartButton
  then show ?thesis by (simp add: startGame_def)
next
  case NextLevelButton
  with assms show ?thesis by (simp add: nextLevel_def Let_def)
next
  case CloseModalButton
  with assms show ?thesis by (simp add: closeModal_def)
next
  case (AnimationFrame t)
  have "length (pulses (update (min (t - lastTime g) 32) (g\<lparr>lastTime := t\<rparr>))) \<le> 22"
    using assms by (intro update_length) simp
  with AnimationFrame show ?thesis by (simp add: gameLoop_def Let_def)
next
  case (Resize w h)
  with assms show ?thesis by (simp add: resize_def)
qed

lemma run_events_length:
  assumes "length (pulses g) \<le> 22"
  shows "length (pulses (run_events evs g)) \<le> 22"
  using assms unfolding run_events_def
  by (induction evs arbitrary: g) (simp_all add: handle_length)

text \<open>
  Claim C10. In the Playing state \<open>fire\<close> appends pulses only when fewer than 20 are
  live, one pulse or, with multi-shot active, three at once; with 20 or more live pulses it
  changes nothing. Hence, whatever events arrive after the game is constructed (clicks,
  touches, buttons, resizes, animation frames), the number of live pulses never exceeds 22.
\<close>

theorem fire_cap:
  "(state g = PLAYING \<and> length (pulses g) < 20 \<longrightarrow>
      pulses (fire g) = pulses g @
        (let px = player_x (player g); py = player_y (player g) - player_height (player g) / 2
         in if multiShot (activePowerUps g) > 0
            then [new_Pulse (px - 15) py, new_Pulse px py, new_Pulse (px + 15) py]
            else [new_Pulse px py]))
   \<and> (state g = PLAYING \<and> 20 \<le> length (pulses g) \<longrightarrow> fire g = g)
   \<and> length (pulses (run_events evs (new_Game canvasWidth canvasHeight rnd))) \<le> 22"
proof -
  have "length (pulses (new_Game canvasWidth canvasHeight rnd)) \<le> 22"
    by (simp add: new_Game_def)
  from run_events_length [OF this] show ?thesis
    by (simp add: fire_def Let_def)
qed

theorem fire_cap_witness:
  "state (startGame (new_Game 800 600 (\<lambda>_. 0))) = PLAYING
   \<and> length (pulses (startGame (new_Game 800 600 (\<lambda>_. 0)))) < 20
   \<and> pulses (fire (startGame (new_Game 800 600 (\<lambda>_. 0)))) = [new_Pulse 400 505]
   \<and> length (pulses (run_events [StartButton, Click, Click] (new_Game 800 600 (\<lambda>_. 0)))) = 2
   \<and> length (pulses (run_events [StartButton, Click, Click] (new_Game 800 600 (\<lambda>_. 0)))) \<le> 22
   \<and> 20 \<le> length (pulses ((startGame (new_Game 800 600 (\<lambda>_. 0)))\<lparr>pulses := replicate 20 (new_Pulse 400 505)\<rparr>))
   \<and> fire ((startGame (new_Game 800 600 (\<lambda>_. 0)))\<lparr>pulses := replicate 20 (new_Pulse 400 505)\<rparr>)
       = (startGame (new_Game 800 600 (\<lambda>_. 0)))\<lparr>pulses := replicate 20 (new_Pulse 400 505)\<rparr>"
  using fire_cap [of "startGame (new_Game 800 600 (\<lambda>_. 0))" "[StartButton, Click, Click]" 800 600 "\<lambda>_. 0"]
    fire_cap [of "(startGame (new_Game 800 600 (\<lambda>_. 0)))\<lparr>pulses := replicate 20 (new_Pulse 400 505)\<rparr>" "[]" 800 600 "\<lambda>_. 0"]
  by (simp add: run_events_def fire_def startGame_def new_Game_def new_Player_def Let_def)

subsection \<open>What each block of a frame leaves unchanged\<close>

lemma tickDifficulty_keeps:
  "crs (tickDifficulty d g) = crs g" "activePowerUps (tickDifficulty d g) = activePowerUps g"
  "combo (tickDifficulty d g) = combo g" "comboTimer (tickDifficulty d g) = comboTimer g"
  "state (tickDifficulty d g) = state g" "canvas_height (tickDifficulty d g) = canvas_height g"
  by (simp_all add: tickDifficulty_def Let_def)

lemma fire_keeps:
  "crs (fire g) = crs g" "activePowerUps (fire g) = activePowerUps g"
  "combo (fire g) = combo g" "comboTimer (fire g) = comboTimer g"
  "state (fire g) = state g" "canvas_height (fire g) = canvas_height g"
  by (simp_all add: fire_def Let_def)

lemma autoFire_keeps:
  "crs (autoFire d g) = crs g" "activePowerUps (autoFire d g) = activePowerUps g"
  "combo (autoFire d g) = combo g" "comboTimer (autoFire d g) = comboTimer g"
  "state (autoFire d g) = state g" "canvas_height (autoFire d g) = canvas_height g"
  by (simp_all add: autoFire_def Let_def fire_keeps)

lemma spawnClot_keeps:
  "crs (spawnClot g) = crs g" "activePowerUps (spawnClot g) = activePowerUps g"
  "combo (spawnClot g) = combo g" "comboTimer (spawnClot g) = comboTimer g"
  "state (spawnClot g) = state g" "canvas_height (spawnClot g) = canvas_height g"
  by (simp_all add: spawnClot_def Let_def)

lemma extraSpawn_keeps:
  "crs (extraSpawn l c g) = crs g" "activePowerUps (extraSpawn l c g) = activePowerUps g"
  "combo (extraSpawn l c g) = combo g" "comboTimer (extraSpawn l c g) = comboTimer g"
  "state (extraSpawn l c g) = state g" "canvas_height (extraSpawn l c g) = canvas_height g"
  by (simp_all add: extraSpawn_def Let_def spawnClot_keeps)

lemma spawnClots_keeps:
  "crs (spawnClots d g) = crs g" "activePowerUps (spawnClots d g) = activePowerUps g"
  "combo (spawnClots d g) = combo g" "comboTimer (spawnClots d g) = comboTimer g"
  "state (spawnClots d g) = state g" "canvas_height (spawnClots d g) = canvas_height g"
  by (simp_all add: spawnClots_def Let_def extraSpawn_keeps spawnClot_keeps)

lemma preCollision_keeps:
  "crs (preCollision d g) = crs g" "activePowerUps (preCollision d g) = activePowerUps g"
  "combo (preCollision d g) = combo g" "comboTimer (preCollision d g) = comboTimer g"
  "state (preCollision d g) = state g" "canvas_height (preCollision d g) = canvas_height g"
  by (simp_all add: preCollision_def Let_def updateClots_def updatePulses_def
      spawnClots_keeps autoFire_keeps tickDifficulty_keeps)


lemma hitClot_kept: "scan_kept g (scan_game s) \<Longrightarrow> scan_kept g (scan_game (hitClot p_i c_i s))"
  by (simp add: scan_kept_def hitClot_def onClotDestroyed_def Let_def split: prod.splits)

lemma testPair_kept: "scan_kept g (scan_game s) \<Longrightarrow> scan_kept g (scan_game (testPair p_i c_i s))"
  by (simp add: testPair_def hitClot_kept)

lemma scanClots_kept: "scan_kept g (scan_game s) \<Longrightarrow> scan_kept g (scan_game (scanClots p_i s))"
  unfolding scanClots_def
  by (rule fold_preserves [where P = "\<lambda>t. scan_kept g (scan_game t)"]) (simp_all add: testPair_kept)

lemma scanPulses_kept: "scan_kept g (scan_game (scanPulses g))"
  unfolding scanPulses_def
proof (rule fold_preserves [where P = "\<lambda>t. scan_kept g (scan_game t)"])
  show "scan_kept g (scan_game (startScan g))" by (simp add: startScan_def scan_kept_def)
qed (simp add: scanClots_kept)

lemma checkCollisions_keeps:
  "activePowerUps (checkCollisions g) = activePowerUps g"
  "state (checkCollisions g) = state g"
  "maxCRS (crs (checkCollisions g)) = maxCRS (crs g)"
  "canvas_height (checkCollisions g) = canvas_height g"
  using scanPulses_kept [of g] by (simp_all add: checkCollisions_def Let_def scan_kept_def)

lemma cullStep_maxCRS: "maxCRS (snd (cullStep h c acc)) = maxCRS (snd acc)"
  by (simp add: cullStep_def Let_def)

lemma cullEscaped_keeps:
  "maxCRS (crs (cullEscaped g)) = maxCRS (crs g)"
  "activePowerUps (cullEscaped g) = activePowerUps g"
  "combo (cullEscaped g) = combo g" "comboTimer (cullEscaped g) = comboTimer g"
  "state (cullEscaped g) = state g"
proof -
  have "maxCRS (snd (fold (cullStep h) xs acc)) = maxCRS (snd acc)" for h xs acc
    by (rule fold_preserves [where P = "\<lambda>t. maxCRS (snd t) = maxCRS (snd acc)"])
       (simp_all add: cullStep_maxCRS)
  then show "maxCRS (crs (cullEscaped g)) = maxCRS (crs g)"
    by (simp add: cullEscaped_def Let_def)
qed (simp_all add: cullEscaped_def Let_def)

lemma updateCRS_le: "crsValue (crs (updateCRS d g)) \<le> maxCRS (crs g)"
  by (simp add: updateCRS_def CRSCalculator_update_def Let_def)

lemma updateCRS_keeps:
  "maxCRS (crs (updateCRS d g)) = maxCRS (crs g)"
  "activePowerUps (updateCRS d g) = activePowerUps g"
  "combo (updateCRS d g) = combo g" "comboTimer (updateCRS d g) = comboTimer g"
  by (simp_all add: updateCRS_def CRSCalculator_update_def Let_def)

lemma checkCritical_keeps:
  "crs (checkCritical g) = crs g" "activePowerUps (checkCritical g) = activePowerUps g"
  "combo (checkCritical g) = combo g" "comboTimer (checkCritical g) = comboTimer g"
  by (simp_all add: checkCritical_def)

lemma checkGameOver_keeps:
  "crs (checkGameOver g) = crs g" "activePowerUps (checkGameOver g) = activePowerUps g"
  "combo (checkGameOver g) = combo g" "comboTimer (checkGameOver g) = comboTimer g"
  by (simp_all add: checkGameOver_def)

lemma updatePowerUps_keeps:
  "crs (updatePowerUps d g) = crs g" "activePowerUps (updatePowerUps d g) = activePowerUps g"
  "combo (updatePowerUps d g) = combo g" "comboTimer (updatePowerUps d g) = comboTimer g"
  by (simp_all add: updatePowerUps_def)

lemma applyPowerUp_crs:
  "crsValue (crs g) \<le> 100 \<Longrightarrow> crsValue (crs (applyPowerUp key g)) \<le> 100"
  by (simp add: applyPowerUp_def Let_def split: option.splits powerup_key.splits)

lemma applyPowerUp_keeps:
  "combo (applyPowerUp key g) = combo g" "comboTimer (applyPowerUp key g) = comboTimer g"
  by (simp_all add: applyPowerUp_def Let_def split: option.splits powerup_key.splits)

lemma collectStep_crs:
  "crsValue (crs (snd acc)) \<le> 100 \<Longrightarrow> crsValue (crs (snd (collectStep pu acc))) \<le> 100"
  by (simp add: collectStep_def Let_def applyPowerUp_crs)

lemma collectStep_combo:
  "combo (snd (collectStep pu acc)) = combo (snd acc) \<and> comboTimer (snd (collectStep pu acc)) = comboTimer (snd acc)"
  by (simp add: collectStep_def Let_def applyPowerUp_keeps)

lemma collectPowerUps_crs:
  assumes "crsValue (crs g) \<le> 100"
  shows "crsValue (crs (collectPowerUps g)) \<le> 100"
proof -
  have "crsValue (crs (snd (fold collectStep (powerUps g) ([], g)))) \<le> 100"
    by (rule fold_preserves [where P = "\<lambda>t. crsValue (crs (snd t)) \<le> 100"])
       (simp_all add: collectStep_crs assms)
  then show ?thesis by (simp add: collectPowerUps_def Let_def)
qed

lemma collectPowerUps_keeps:
  "combo (collectPowerUps g) = combo g" "comboTimer (collectPowerUps g) = comboTimer g"
proof -
  have "combo (snd (fold collectStep (powerUps g) ([], g))) = combo g
      \<and> comboTimer (snd (fold collectStep (powerUps g) ([], g))) = comboTimer g"
    by (rule fold_preserves [where P = "\<lambda>t. combo (snd t) = combo g \<and> comboTimer (snd t) = comboTimer g"])
       (simp_all add: collectStep_combo)
  then show "combo (collectPowerUps g) = combo g" "comboTimer (collectPowerUps g) = comboTimer g"
    by (simp_all add: collectPowerUps_def Let_def)
qed

lemma update_crs_le:
  assumes "state g = PLAYING" "maxCRS (crs g) = 100"
  shows "crsValue (crs (update d g)) \<le> 100"
proof -
  let ?g0 = "checkCollisions (preCollision d g)"
  let ?g2 = "updateCRS d (cullEscaped ?g0)"
  let ?g5 = "updatePowerUps d (checkGameOver (checkCritical ?g2))"
  have "maxCRS (crs (cullEscaped ?g0)) = 100"
    using assms(2) by (simp add: cullEscaped_keeps checkCollisions_keeps preCollision_keeps)
  then have "crsValue (crs ?g2) \<le> 100"
    using updateCRS_le [of d "cullEscaped ?g0"] by simp
  then have "crsValue (crs ?g5) \<le> 100"
    by (simp add: updatePowerUps_keeps checkGameOver_keeps checkCritical_keeps)
  then have "crsValue (crs (collectPowerUps ?g5)) \<le> 100"
    by (rule collectPowerUps_crs)
  then show ?thesis
    using assms(1)
    by (simp add: update_def postCollision_def Let_def updatePowerUpTimers_def updateComboTimer_def)
qed


lemma sqrt_less_iff:
  assumes "0 \<le> a"
  shows "(sqrt a < b) = (0 < b \<and> a < b * b)"
proof (cases "0 < b")
  case True
  then have "sqrt (b * b) = b" by simp
  then have "(sqrt a < b) = (sqrt a < sqrt (b * b))" by simp
  also have "\<dots> = (a < b * b)" by (rule real_sqrt_less_iff)
  finally show ?thesis using True by simp
next
  case False
  have "0 \<le> sqrt a" using assms by simp
  then have "\<not> sqrt a < b" using False by linarith
  with False show ?thesis by simp
qed

lemma collectStep_squared:
  "collectStep pu acc =
     (let g = snd acc;
          dx = pu_x pu - player_x (player g);
          dy = pu_y pu - player_y (player g)
      in if 0 < pu_radius pu + 30 \<and> dx * dx + dy * dy < (pu_radius pu + 30) * (pu_radius pu + 30)
         then (fst acc, applyPowerUp (typeKey pu) g)
         else (fst acc @ [pu], g))"
  by (simp add: collectStep_def Let_def sqrt_less_iff)

lemmas update_defs =
  update_def preCollision_def postCollision_def
  checkCollisions_def scanPulses_def scanClots_def testPair_def hitClot_def startScan_def removeIndices_def
  tickDifficulty_def autoFire_def fire_def updatePulses_def spawnClots_def extraSpawn_def spawnClot_def updateClots_def
  cullEscaped_def cullStep_def updateCRS_def checkCritical_def checkGameOver_def updatePowerUps_def
  collectPowerUps_def collectStep_squared applyPowerUp_def updateComboTimer_def updatePowerUpTimers_def tickTimer_def
  CRSCalculator_update_def residenceContribution_def onClotDestroyed_def getScale_def
  isCritical_def isFailed_def crs_reset_def new_CRSCalculator_def
  new_Player_def Player_update_def lerp_def new_Pulse_def Pulse_update_def new_Clot_def Clot_update_def hit_def
  new_PowerUp_def PowerUp_update_def types_def collides_def circleCollision_iff
  startGame_def new_Game_def Let_def

subsection \<open>Escaped clots\<close>

lemma fold_cullStep:
  "fold (cullStep h) xs (kept, c) =
     (kept @ filter (\<lambda>x. \<not> clot_y x > h + clot_radius x) xs,
      c\<lparr>crsValue := crsValue c + (\<Sum>x\<leftarrow>filter (\<lambda>x. clot_y x > h + clot_radius x) xs. 25 + getScale x * 15)\<rparr>)"
  by (induction xs arbitrary: kept c) (simp_all add: cullStep_def Let_def algebra_simps)

lemma foldl_residence:
  "foldl (\<lambda>acc clot. acc + residenceContribution d clot) a (map WithScale cs)
     = a + (\<Sum>c\<leftarrow>cs. getScale c * getScale c * (d / 1000) * 2)"
  by (induction cs arbitrary: a) (simp_all add: residenceContribution_def Let_def)

lemma updateCRS_value:
  "crsValue (crs (updateCRS d g)) =
     min (maxCRS (crs g)) (crsValue (crs g) + (\<Sum>c\<leftarrow>clots g. getScale c * getScale c * (d / 1000) * 2))"
  by (simp add: updateCRS_def CRSCalculator_update_def Let_def foldl_residence)

lemma applyPowerUp_clots: "clots (applyPowerUp key g) = clots g"
  by (simp add: applyPowerUp_def Let_def split: option.splits powerup_key.splits)

lemma collectStep_clots: "clots (snd (collectStep pu acc)) = clots (snd acc)"
  by (simp add: collectStep_def Let_def applyPowerUp_clots)

lemma collectPowerUps_clots: "clots (collectPowerUps g) = clots g"
proof -
  have "clots (snd (fold collectStep (powerUps g) ([], g))) = clots g"
    by (rule fold_preserves [where P = "\<lambda>t. clots (snd t) = clots g"])
       (simp_all add: collectStep_clots)
  then show ?thesis by (simp add: collectPowerUps_def Let_def)
qed

lemma applyPowerUp_no_heal: "key \<noteq> Some HEAL \<Longrightarrow> crs (applyPowerUp key g) = crs g"
  by (simp add: applyPowerUp_def Let_def split: option.splits powerup_key.splits)

lemma fold_collectStep_no_heal:
  "list_all (\<lambda>pu. typeKey pu \<noteq> Some HEAL) xs \<Longrightarrow>
     crs (snd (fold collectStep xs acc)) = crs (snd acc)"
  by (induction xs arbitrary: acc) (simp_all add: collectStep_def Let_def applyPowerUp_no_heal)

lemma collectPowerUps_no_heal:
  "list_all (\<lambda>pu. typeKey pu \<noteq> Some HEAL) (powerUps g) \<Longrightarrow> crs (collectPowerUps g) = crs g"
  using fold_collectStep_no_heal [of "powerUps g" "([], g)"]
  by (simp add: collectPowerUps_def Let_def)

lemma updatePowerUps_no_heal:
  "list_all (\<lambda>pu. typeKey pu \<noteq> Some HEAL) (powerUps g) \<Longrightarrow>
     list_all (\<lambda>pu. typeKey pu \<noteq> Some HEAL) (powerUps (updatePowerUps d g))"
  by (induction "powerUps g" arbitrary: g)
     (auto simp: updatePowerUps_def PowerUp_update_def Let_def list_all_iff)

lemma cullEscaped_value:
  "clots (cullEscaped g) = filter (\<lambda>c. \<not> clot_y c > canvas_height g + clot_radius c) (clots g)
   \<and> crsValue (crs (cullEscaped g)) =
       crsValue (crs g)
       + (\<Sum>c\<leftarrow>filter (\<lambda>c. clot_y c > canvas_height g + clot_radius c) (clots g). 25 + getScale c * 15)
   \<and> powerUps (cullEscaped g) = powerUps g"
  by (simp add: cullEscaped_def Let_def fold_cullStep)

lemma postCollision_clots: "clots (postCollision d g) = clots (cullEscaped g)"
  by (simp add: postCollision_def Let_def updatePowerUpTimers_def updateComboTimer_def
      collectPowerUps_clots updatePowerUps_def checkGameOver_def checkCritical_def updateCRS_def)

lemma postCollision_crs_no_heal:
  assumes "list_all (\<lambda>pu. typeKey pu \<noteq> Some HEAL) (powerUps g)"
  shows "crs (postCollision d g) = crs (updateCRS d (cullEscaped g))"
proof -
  let ?g4 = "checkGameOver (checkCritical (updateCRS d (cullEscaped g)))"
  have "powerUps ?g4 = powerUps g"
    by (simp add: checkGameOver_def checkCritical_def updateCRS_def cullEscaped_value)
  with assms have "list_all (\<lambda>pu. typeKey pu \<noteq> Some HEAL) (powerUps (updatePowerUps d ?g4))"
    by (intro updatePowerUps_no_heal) simp
  then have "crs (collectPowerUps (updatePowerUps d ?g4)) = crs (updatePowerUps d ?g4)"
    by (rule collectPowerUps_no_heal)
  then show ?thesis
    by (simp add: postCollision_def Let_def updatePowerUpTimers_def updateComboTimer_def
        updatePowerUps_keeps checkGameOver_keeps checkCritical_keeps)
qed

text \<open>
  Claim C5. Let \<open>scanned deltaTime g\<close> be the playing game of this frame when the escape
  filter starts. The frame removes exactly the clots whose \<open>y\<close> lies beyond the canvas
  height plus their radius: the clots at the end of the frame are the others. For each
  removed clot the filter adds \<open>25 + getScale() * 15\<close> to the CRS value (40 for a clot of
  scale 1), with no clamp at that point. The call of \<open>crs.update\<close> that follows adds the
  residence contribution of the clots that stay and clamps: at the end of the frame the
  CRS value is at most 100, and, when no heal power-up is in play, it is exactly the
  minimum of 100 and the value before the filter plus the penalties plus the residence
  contributions.
\<close>

theorem escape_penalty:
  assumes "state g = PLAYING" and "maxCRS (crs g) = 100"
  shows "clots (update deltaTime g) =
           filter (\<lambda>c. \<not> clot_y c > canvas_height g + clot_radius c) (clots (scanned deltaTime g))
       \<and> crsValue (crs (cullEscaped (scanned deltaTime g))) =
           crsValue (crs (scanned deltaTime g))
           + (\<Sum>c\<leftarrow>filter (\<lambda>c. clot_y c > canvas_height g + clot_radius c) (clots (scanned deltaTime g)).
                25 + getScale c * 15)
       \<and> crsValue (crs (update deltaTime g)) \<le> 100
       \<and> (list_all (\<lambda>pu. typeKey pu \<noteq> Some HEAL) (powerUps (scanned deltaTime g)) \<longrightarrow>
            crsValue (crs (update deltaTime g)) =
              min 100
                (crsValue (crs (scanned deltaTime g))
                 + (\<Sum>c\<leftarrow>filter (\<lambda>c. clot_y c > canvas_height g + clot_radius c) (clots (scanned deltaTime g)).
                      25 + getScale c * 15)
                 + (\<Sum>c\<leftarrow>filter (\<lambda>c. \<not> clot_y c > canvas_height g + clot_radius c) (clots (scanned deltaTime g)).
                      getScale c * getScale c * (deltaTime / 1000) * 2)))"
proof -
  let ?s = "scanned deltaTime g"
  have h: "canvas_height ?s = canvas_height g" and m: "maxCRS (crs ?s) = 100"
    using assms(2) by (simp_all add: scanned_def checkCollisions_keeps preCollision_keeps)
  have upd: "update deltaTime g = postCollision deltaTime ?s"
    using assms(1) by (simp add: update_def scanned_def)
  have c1: "clots (update deltaTime g) =
      filter (\<lambda>c. \<not> clot_y c > canvas_height g + clot_radius c) (clots ?s)"
    using cullEscaped_value [of ?s] h by (simp add: upd postCollision_clots)
  have c2: "crsValue (crs (cullEscaped ?s)) =
      crsValue (crs ?s)
      + (\<Sum>c\<leftarrow>filter (\<lambda>c. clot_y c > canvas_height g + clot_radius c) (clots ?s). 25 + getScale c * 15)"
    using cullEscaped_value [of ?s] h by simp
  have c3: "crsValue (crs (update deltaTime g)) \<le> 100"
    by (rule update_crs_le [OF assms])
  have c4: "crsValue (crs (update deltaTime g)) =
      min 100 (crsValue (crs ?s)
        + (\<Sum>c\<leftarrow>filter (\<lambda>c. clot_y c > canvas_height g + clot_radius c) (clots ?s). 25 + getScale c * 15)
        + (\<Sum>c\<leftarrow>filter (\<lambda>c. \<not> clot_y c > canvas_height g + clot_radius c) (clots ?s).
             getScale c * getScale c * (deltaTime / 1000) * 2))"
    if nh: "list_all (\<lambda>pu. typeKey pu \<noteq> Some HEAL) (powerUps ?s)"
  proof -
    have "crs (update deltaTime g) = crs (updateCRS deltaTime (cullEscaped ?s))"
      using postCollision_crs_no_heal [OF nh] by (simp add: upd)
    moreover have "maxCRS (crs (cullEscaped ?s)) = 100" using m by (simp add: cullEscaped_keeps)
    ultimately show ?thesis
      using cullEscaped_value [of ?s] h by (simp add: updateCRS_value)
  qed
  from c1 c2 c3 c4 show ?thesis by blast
qed

lemma escapeGame_scanned:
  "clots (scanned 16 (escapeGame v)) = [(new_Clot 100 700 1 (\<lambda>_. 0) 0)\<lparr>clot_x := 99.75, clot_y := 700.4, residenceTime := 16\<rparr>]
   \<and> powerUps (scanned 16 (escapeGame v)) = []
   \<and> crsValue (crs (scanned 16 (escapeGame v))) = v"
  by (simp add: scanned_def escapeGame_def update_defs)

theorem escape_penalty_witness:
  "state (escapeGame 90) = PLAYING \<and> maxCRS (crs (escapeGame 90)) = 100
   \<and> getScale (new_Clot 100 700 1 (\<lambda>_. 0) 0) = 1
   \<and> map clot_y (clots (scanned 16 (escapeGame 90))) = [700.4]
   \<and> clots (update 16 (escapeGame 90)) = []
   \<and> crsValue (crs (cullEscaped (scanned 16 (escapeGame 90)))) = 90 + 40
   \<and> crsValue (crs (update 16 (escapeGame 90))) = 100
   \<and> clots (update 16 (escapeGame 10)) = []
   \<and> crsValue (crs (update 16 (escapeGame 10))) = 10 + 40"
  using escape_penalty [of "escapeGame 90" 16] escape_penalty [of "escapeGame 10" 16]
    escapeGame_scanned [of 90] escapeGame_scanned [of 10]
  by (simp add: escapeGame_def startGame_def new_Game_def new_Clot_def new_CRSCalculator_def
      getScale_def Let_def)

subsection \<open>Restarting a session\<close>

lemma startGame_autoFireTimer: "autoFireTimer (startGame g) = autoFireTimer g"
  by (simp add: startGame_def)

lemma first_frame_autoFireTimer:
  "autoFireTimer (update 32 (startGame (new_Game 800 600 (\<lambda>_. 0)))) = Some 32"
  by (simp add: update_defs)

text \<open>
  Claim C9, at the auto-fire timer. \<open>startGame\<close> assigns the state, the score, the
  entity lists, the CRS value, the spawn, difficulty, combo and pulse-cooldown timers, the
  combo counters and the power-up durations, and leaves \<open>autoFireTimer\<close> as it is.
  A game that has played one frame of 32 ms and is started again keeps the 32 ms on its
  auto-fire timer, where a fresh game has none.
\<close>

theorem startGame_keeps_autoFireTimer:
  "autoFireTimer (new_Game 800 600 (\<lambda>_. 0)) = None
   \<and> autoFireTimer (startGame (new_Game 800 600 (\<lambda>_. 0))) = None
   \<and> autoFireTimer (startGame (update 32 (startGame (new_Game 800 600 (\<lambda>_. 0))))) = Some 32"
  by (simp add: startGame_autoFireTimer first_frame_autoFireTimer) (simp add: new_Game_def)

subsection \<open>The power-up timers\<close>

text \<open>
  Claim C6 as stated fails: a rapid-fire timer with 10 ms left is at -22 ms after a frame
  of 32 ms.
\<close>

theorem timers_counterexample:
  "\<not> 0 \<le> rapidFire (activePowerUps (update 32
      ((startGame (new_Game 800 600 (\<lambda>_. 0)))\<lparr>activePowerUps := \<lparr>rapidFire = 10, multiShot = 0, shield = 0\<rparr>\<rparr>)))"
  by (simp add: update_defs)

lemma applyPowerUp_timers:
  "timers_above (- 32) g \<Longrightarrow> timers_above (- 32) (applyPowerUp key g)"
  by (simp add: timers_above_def applyPowerUp_def Let_def split: option.splits powerup_key.splits)

lemma collectStep_timers:
  "timers_above (- 32) (snd acc) \<Longrightarrow> timers_above (- 32) (snd (collectStep pu acc))"
  by (simp add: collectStep_def Let_def applyPowerUp_timers)

lemma collectPowerUps_timers:
  assumes "timers_above (- 32) g"
  shows "timers_above (- 32) (collectPowerUps g)"
proof -
  have "timers_above (- 32) (snd (fold collectStep (powerUps g) ([], g)))"
    by (rule fold_preserves [where P = "\<lambda>t. timers_above (- 32) (snd t)"])
       (simp_all add: collectStep_timers assms)
  then show ?thesis by (simp add: collectPowerUps_def Let_def timers_above_def)
qed

lemma tickTimer_above: "d \<le> 32 \<Longrightarrow> - 32 < t \<Longrightarrow> - 32 < tickTimer d t"
  by (simp add: tickTimer_def)

lemma update_timers:
  assumes "timers_above (- 32) g" "d \<le> 32"
  shows "timers_above (- 32) (update d g)"
proof (cases "state g = PLAYING")
  case False
  with assms show ?thesis by (simp add: update_def)
next
  case True
  let ?g5 = "updatePowerUps d (checkGameOver (checkCritical (updateCRS d (cullEscaped
               (checkCollisions (preCollision d g))))))"
  have "activePowerUps ?g5 = activePowerUps g"
    by (simp add: updatePowerUps_keeps checkGameOver_keeps checkCritical_keeps updateCRS_keeps
        cullEscaped_keeps checkCollisions_keeps preCollision_keeps)
  then have "timers_above (- 32) ?g5" using assms(1) by (simp add: timers_above_def)
  then have "timers_above (- 32) (collectPowerUps ?g5)" by (rule collectPowerUps_timers)
  then have "timers_above (- 32) (updateComboTimer d (collectPowerUps ?g5))"
    by (simp add: timers_above_def updateComboTimer_def Let_def)
  then have "timers_above (- 32) (updatePowerUpTimers d (updateComboTimer d (collectPowerUps ?g5)))"
    using assms(2) by (simp add: timers_above_def updatePowerUpTimers_def tickTimer_above)
  with True show ?thesis by (simp add: update_def postCollision_def Let_def)
qed

lemma handle_timers:
  assumes "timers_above (- 32) g"
  shows "timers_above (- 32) (handle g ev)"
proof (cases ev)
  case (AnimationFrame t)
  have "timers_above (- 32) (update (min (t - lastTime g) 32) (g\<lparr>lastTime := t\<rparr>))"
    using assms by (intro update_timers) (simp_all add: timers_above_def)
  with AnimationFrame show ?thesis by (simp add: gameLoop_def Let_def)
qed (use assms in \<open>simp_all add: timers_above_def fire_keeps handleMouse_def handleTouch_def
       startGame_def nextLevel_def closeModal_def resize_def Let_def\<close>)

lemma run_events_timers:
  assumes "timers_above (- 32) g"
  shows "timers_above (- 32) (run_events evs g)"
  using assms unfolding run_events_def
  by (induction evs arbitrary: g) (simp_all add: handle_timers)

text \<open>
  Claim C6, amended. The per-frame step lowers a timer by \<open>deltaTime\<close> only while the
  timer is positive, leaves it unchanged otherwise and does not floor it at zero. As the game loop
  caps \<open>deltaTime\<close> at 32 ms, each of the three timers stays above -32 whatever events
  arrive after the game is constructed.
\<close>

theorem timers_not_floored:
  "activePowerUps (updatePowerUpTimers deltaTime g) =
     \<lparr>rapidFire = (if rapidFire (activePowerUps g) > 0
                   then rapidFire (activePowerUps g) - deltaTime else rapidFire (activePowerUps g)),
      multiShot = (if multiShot (activePowerUps g) > 0
                   then multiShot (activePowerUps g) - deltaTime else multiShot (activePowerUps g)),
      shield = (if shield (activePowerUps g) > 0
                then shield (activePowerUps g) - deltaTime else shield (activePowerUps g))\<rparr>
   \<and> - 32 < rapidFire (activePowerUps (run_events evs (new_Game canvasWidth canvasHeight rnd)))
   \<and> - 32 < multiShot (activePowerUps (run_events evs (new_Game canvasWidth canvasHeight rnd)))
   \<and> - 32 < shield (activePowerUps (run_events evs (new_Game canvasWidth canvasHeight rnd)))"
proof -
  have "timers_above (- 32) (new_Game canvasWidth canvasHeight rnd)"
    by (simp add: timers_above_def new_Game_def)
  from run_events_timers [OF this, of evs] show ?thesis
    by (simp add: timers_above_def updatePowerUpTimers_def tickTimer_def)
qed

subsection \<open>The collision scan, pulse by pulse\<close>

lemma oneHitLeft_eval:
  "oneHitLeft = \<lparr>clot_x = 100, clot_y = 100, baseRadius = 45, clot_radius = 15, minRadius = 10,
      shrinkAmount = 5, clot_speed = 0.4, residenceTime = 0, hitFlash = 1, clot_vx = - 0.25,
      dropsPowerUp = True\<rparr>"
  by (simp add: oneHitLeft_def eval_nat_numeral hit_def new_Clot_def Let_def)

text \<open>
  Claim C2, at a concrete scan. Two pulses overlap one clot of radius 15 that drops a
  power-up. The hit of the first pulse shrinks it to 10 and destroys it; the scan goes on,
  the second pulse still intersects it, \<open>hit()\<close> runs again and reports it destroyed
  again. The destroy bonus is paid twice (the score is 55 + 110, of which 100 is the second
  bonus) and two power-ups are spawned; with the first pulse alone the score is 55 and one
  power-up is spawned.
\<close>

theorem destroyed_clot_rewarded_twice:
  "clot_radius oneHitLeft = 15 \<and> fst (hit oneHitLeft)
   \<and> score (checkCollisions twoPulsesOneClot) = (5 * 1 + 50 * 1) + (5 * 2 + 50 * 2)
   \<and> length (powerUps (checkCollisions twoPulsesOneClot)) = 2
   \<and> score (checkCollisions (twoPulsesOneClot\<lparr>pulses := [new_Pulse 100 100]\<rparr>)) = 5 * 1 + 50 * 1
   \<and> length (powerUps (checkCollisions (twoPulsesOneClot\<lparr>pulses := [new_Pulse 100 100]\<rparr>))) = 1"
  by (simp add: twoPulsesOneClot_def oneHitLeft_eval update_defs circleCollision_iff)



lemma hitClot_frame:
  "pulses (scan_game (hitClot p_i c_i t)) = pulses (scan_game t)
   \<and> length (clots (scan_game (hitClot p_i c_i t))) = length (clots (scan_game t))
   \<and> drop (Suc c_i) (clots (scan_game (hitClot p_i c_i t))) = drop (Suc c_i) (clots (scan_game t))
   \<and> combo (scan_game (hitClot p_i c_i t)) = combo (scan_game t) + 1
   \<and> pulsesToRemove (hitClot p_i c_i t) = insert p_i (pulsesToRemove t)
   \<and> comboTimer (scan_game (hitClot p_i c_i t)) = 1500"
  by (simp add: hitClot_def Let_def split: prod.splits)

lemma pass_inv_step:
  assumes inv: "pass_inv p_i s k t" and k: "k < length (clots (scan_game s))"
  shows "pass_inv p_i s (Suc k) (testPair p_i k t)"
proof -
  let ?p = "pulses (scan_game s) ! p_i"
  let ?cs = "clots (scan_game s)"
  have d: "drop k (clots (scan_game t)) = drop k ?cs"
    using inv by (simp add: pass_inv_def)
  have len: "length (clots (scan_game t)) = length ?cs"
    using inv by (simp add: pass_inv_def)
  have same: "clots (scan_game t) ! k = ?cs ! k"
  proof -
    have "clots (scan_game t) ! k = drop k (clots (scan_game t)) ! 0"
      using k len by simp
    also have "\<dots> = drop k ?cs ! 0" by (simp only: d)
    also have "\<dots> = ?cs ! k" using k by simp
    finally show ?thesis .
  qed
  have tk: "take (Suc k) ?cs = take k ?cs @ [?cs ! k]"
    using k by (simp add: take_Suc_conv_app_nth)
  have dr: "drop (Suc k) (clots (scan_game t)) = drop (Suc k) ?cs"
    using inv by (metis pass_inv_def drop_Suc tl_drop)
  show ?thesis
  proof (cases "collides ?p (?cs ! k)")
    case True
    then have "testPair p_i k t = hitClot p_i k t"
      using inv same by (simp add: testPair_def pass_inv_def)
    with inv True tk dr hitClot_frame [of p_i k t] show ?thesis
      by (simp add: pass_inv_def)
  next
    case False
    then have "testPair p_i k t = t"
      using inv same by (simp add: testPair_def pass_inv_def)
    with inv False tk dr show ?thesis
      by (simp add: pass_inv_def)
  qed
qed

lemma pass_inv_prefix:
  "k \<le> length (clots (scan_game s)) \<Longrightarrow> pass_inv p_i s k (fold (testPair p_i) [0..<k] s)"
proof (induction k)
  case 0
  show ?case by (simp add: pass_inv_def)
next
  case (Suc k)
  then have "pass_inv p_i s k (fold (testPair p_i) [0..<k] s)" by simp
  from pass_inv_step [OF this] Suc.prems show ?case by simp
qed



lemma pass_inv_nth:
  assumes inv: "pass_inv p_i s k t" and k: "k < length (clots (scan_game s))"
  shows "clots (scan_game t) ! k = clots (scan_game s) ! k"
proof -
  have d: "drop k (clots (scan_game t)) = drop k (clots (scan_game s))"
    using inv by (simp add: pass_inv_def)
  have len: "length (clots (scan_game t)) = length (clots (scan_game s))"
    using inv by (simp add: pass_inv_def)
  have "clots (scan_game t) ! k = drop k (clots (scan_game t)) ! 0"
    using k len by simp
  also have "\<dots> = drop k (clots (scan_game s)) ! 0" by (simp only: d)
  also have "\<dots> = clots (scan_game s) ! k" using k by simp
  finally show ?thesis .
qed





subsection \<open>The combo window\<close>

lemma fold_unchanged:
  assumes "\<And>x. x \<in> set xs \<Longrightarrow> f x s = s"
  shows "fold f xs s = s"
  using assms by (induction xs) simp_all

lemma scanClots_quiet:
  assumes "filter (collides (pulses (scan_game s) ! p_i)) (clots (scan_game s)) = []"
  shows "scanClots p_i s = s"
  unfolding scanClots_def
proof (rule fold_unchanged)
  fix c_i assume "c_i \<in> set [0..<length (clots (scan_game s))]"
  then have "clots (scan_game s) ! c_i \<in> set (clots (scan_game s))" by simp
  with assms have "\<not> collides (pulses (scan_game s) ! p_i) (clots (scan_game s) ! c_i)"
    by (simp add: filter_empty_conv)
  then show "testPair p_i c_i s = s" by (simp add: testPair_def)
qed

lemma scanClots_combo:
  "pulses (scan_game (scanClots p_i s)) = pulses (scan_game s)
   \<and> combo (scan_game (scanClots p_i s)) =
       combo (scan_game s)
       + int (length (filter (collides (pulses (scan_game s) ! p_i)) (clots (scan_game s))))
   \<and> comboTimer (scan_game (scanClots p_i s)) =
       (if filter (collides (pulses (scan_game s) ! p_i)) (clots (scan_game s)) = []
        then comboTimer (scan_game s) else 1500)"
  using pass_inv_prefix [of "length (clots (scan_game s))" s p_i]
  by (simp add: pass_inv_def scanClots_def)

lemma scan_inv_step:
  assumes inv: "scan_inv g k t" and k: "k < length (pulses g)"
  shows "scan_inv g (Suc k) (scanClots k t)"
proof -
  let ?Q = "\<lambda>pulse. filter (collides pulse) (clots g) = []"
  have tk: "take (Suc k) (pulses g) = take k (pulses g) @ [pulses g ! k]"
    using k by (simp add: take_Suc_conv_app_nth)
  show ?thesis
  proof (cases "list_all ?Q (take k (pulses g))")
    case True
    with inv have t: "t = startScan g" by (simp add: scan_inv_def)
    show ?thesis
    proof (cases "?Q (pulses g ! k)")
      case q: True
      then have "scanClots k t = t"
        using t by (intro scanClots_quiet) (simp add: startScan_def)
      with True q t tk show ?thesis by (simp add: scan_inv_def)
    next
      case q: False
      with scanClots_combo [of k t] t
      have "pulses (scan_game (scanClots k t)) = pulses g
           \<and> comboTimer (scan_game (scanClots k t)) = 1500
           \<and> combo g < combo (scan_game (scanClots k t))"
        by (simp add: startScan_def)
      with q tk show ?thesis by (simp add: scan_inv_def)
    qed
  next
    case False
    with inv have h: "pulses (scan_game t) = pulses g" "comboTimer (scan_game t) = 1500"
      "combo g < combo (scan_game t)" by (simp_all add: scan_inv_def)
    from scanClots_combo [of k t] h
    have "pulses (scan_game (scanClots k t)) = pulses g
         \<and> comboTimer (scan_game (scanClots k t)) = 1500
         \<and> combo g < combo (scan_game (scanClots k t))"
      by simp
    with False tk show ?thesis by (simp add: scan_inv_def)
  qed
qed

lemma scan_inv_prefix:
  "k \<le> length (pulses g) \<Longrightarrow> scan_inv g k (fold scanClots [0..<k] (startScan g))"
proof (induction k)
  case 0
  show ?case by (simp add: scan_inv_def)
next
  case (Suc k)
  then have "scan_inv g k (fold scanClots [0..<k] (startScan g))" by simp
  from scan_inv_step [OF this] Suc.prems show ?case by simp
qed

lemma removeIndices_empty: "removeIndices {} xs = xs"
  by (simp add: removeIndices_def case_prod_beta)

lemma checkCollisions_quiet:
  assumes "noCollision g"
  shows "checkCollisions g = g"
proof -
  have "scanPulses g = startScan g"
    using scan_inv_prefix [of "length (pulses g)" g] assms
    by (simp add: scan_inv_def noCollision_def scanPulses_def)
  then show ?thesis
    by (simp add: checkCollisions_def Let_def startScan_def removeIndices_empty)
qed

lemma checkCollisions_hit:
  assumes "\<not> noCollision g"
  shows "comboTimer (checkCollisions g) = 1500 \<and> combo g < combo (checkCollisions g)"
  using scan_inv_prefix [of "length (pulses g)" g] assms
  by (simp add: scan_inv_def noCollision_def scanPulses_def checkCollisions_def Let_def)


lemma postCollision_combo:
  "combo (postCollision d g) = (if combo g > 0 \<and> comboTimer g - d \<le> 0 then 0 else combo g)
   \<and> comboTimer (postCollision d g) = (if combo g > 0 then comboTimer g - d else comboTimer g)"
proof -
  let ?g6 = "collectPowerUps (updatePowerUps d (checkGameOver (checkCritical (updateCRS d (cullEscaped g)))))"
  have "combo ?g6 = combo g \<and> comboTimer ?g6 = comboTimer g"
    by (simp add: collectPowerUps_keeps updatePowerUps_keeps checkGameOver_keeps
        checkCritical_keeps updateCRS_keeps cullEscaped_keeps)
  then show ?thesis
    by (simp add: postCollision_def Let_def updatePowerUpTimers_def updateComboTimer_def)
qed

lemma quiet_frame:
  assumes "state g = PLAYING" "noCollision (preCollision d g)"
  shows "combo (update d g) = (if combo g > 0 \<and> comboTimer g - d \<le> 0 then 0 else combo g)
       \<and> comboTimer (update d g) = (if combo g > 0 then comboTimer g - d else comboTimer g)"
  using assms postCollision_combo [of d "preCollision d g"]
  by (simp add: update_def checkCollisions_quiet preCollision_keeps)

lemma hit_frame:
  assumes "state g = PLAYING" "\<not> noCollision (preCollision d g)" "0 \<le> combo g"
  shows "combo (update d g) =
           (if 1500 \<le> d then 0 else combo (checkCollisions (preCollision d g)))
       \<and> comboTimer (update d g) = 1500 - d
       \<and> 0 < combo (checkCollisions (preCollision d g))"
  using assms checkCollisions_hit [OF assms(2)]
    postCollision_combo [of d "checkCollisions (preCollision d g)"]
  by (simp add: update_def preCollision_keeps)

lemma quiet_run_zero:
  "quietFrames ds g \<Longrightarrow> combo g \<le> 0 \<Longrightarrow> combo (frames ds g) = combo g"
proof (induction ds arbitrary: g)
  case Nil
  show ?case by (simp add: frames_def)
next
  case (Cons d ds)
  from Cons.prems quiet_frame [of g d] have "combo (update d g) = combo g" by simp
  with Cons.IH [of "update d g"] Cons.prems show ?case by (simp add: frames_def)
qed

lemma quiet_run:
  "quietFrames ds g \<Longrightarrow> 0 < combo g \<Longrightarrow>
     combo (frames ds g) = (if comboTimer g \<le> sum_list ds \<and> ds \<noteq> [] then 0 else combo g)"
proof (induction ds arbitrary: g)
  case Nil
  show ?case by (simp add: frames_def)
next
  case (Cons d ds)
  from Cons.prems have q: "state g = PLAYING" "0 \<le> d" "noCollision (preCollision d g)"
    "quietFrames ds (update d g)" by simp_all
  have nn: "0 \<le> sum_list ds" if "quietFrames ds h" for h
    using that by (induction ds arbitrary: h) auto
  show ?case
  proof (cases "comboTimer g - d \<le> 0")
    case True
    with quiet_frame [OF q(1) q(3)] Cons.prems(2) have "combo (update d g) = 0" by simp
    with quiet_run_zero [OF q(4)] have "combo (frames ds (update d g)) = 0" by simp
    moreover have "comboTimer g \<le> d + sum_list ds" using True nn [OF q(4)] by linarith
    ultimately show ?thesis by (simp add: frames_def)
  next
    case False
    with quiet_frame [OF q(1) q(3)] Cons.prems(2)
    have u: "combo (update d g) = combo g" "comboTimer (update d g) = comboTimer g - d" by simp_all
    from Cons.IH [OF q(4)] u Cons.prems(2)
    have "combo (frames ds (update d g)) = (if comboTimer g - d \<le> sum_list ds \<and> ds \<noteq> [] then 0 else combo g)"
      by simp
    moreover have "(comboTimer g - d \<le> sum_list ds \<and> ds \<noteq> []) = (comboTimer g \<le> d + sum_list ds)"
      using False by (cases ds) auto
    ultimately show ?thesis by (simp add: frames_def)
  qed
qed

lemma scan_prefix_kept: "scan_kept g (scan_game (fold scanClots [0..<k] (startScan g)))"
proof (rule fold_preserves [where P = "\<lambda>t. scan_kept g (scan_game t)"])
  show "scan_kept g (scan_game (startScan g))" by (simp add: startScan_def scan_kept_def)
qed (simp add: scanClots_kept)

lemma scanPulses_scanUpTo:
  assumes k: "k < length (pulses g)" and j: "j < length (clots g)"
  shows "scanPulses g =
           fold scanClots [Suc k..<length (pulses g)]
             (fold (testPair k) [Suc j..<length (clots g)] (scanUpTo g k j))"
proof -
  let ?t0 = "fold scanClots [0..<k] (startScan g)"
  have len: "length (clots (scan_game ?t0)) = length (clots g)"
    using scan_prefix_kept [of g k] by (simp add: scan_kept_def)
  have p: "[0..<length (pulses g)] = [0..<k] @ k # [Suc k..<length (pulses g)]"
    using k by (metis le0 less_imp_le_nat upt_add_eq_append le_add_diff_inverse upt_conv_Cons)
  have c: "[0..<length (clots g)] = [0..<Suc j] @ [Suc j..<length (clots g)]"
    using j by (metis Suc_leI le0 upt_add_eq_append le_add_diff_inverse)
  have "scanClots k ?t0 = fold (testPair k) [Suc j..<length (clots g)] (scanUpTo g k j)"
    unfolding scanClots_def len scanUpTo_def by (subst c) (simp only: fold_append comp_apply)
  then show ?thesis
    unfolding scanPulses_def by (subst p) (simp only: fold_append fold_simps comp_apply)
qed

lemma first_hit_combo:
  assumes "firstHit g k j"
  shows "combo (scan_game (scanUpTo g k j)) = combo g + 1"
proof -
  from assms have k: "k < length (pulses g)" and j: "j < length (clots g)"
    and before: "list_all (\<lambda>pulse. filter (collides pulse) (clots g) = []) (take k (pulses g))"
    and miss: "filter (collides (pulses g ! k)) (take j (clots g)) = []"
    and hit: "collides (pulses g ! k) (clots g ! j)"
    by (simp_all add: firstHit_def)
  have t0: "fold scanClots [0..<k] (startScan g) = startScan g"
    using scan_inv_prefix [of k g] k before by (simp add: scan_inv_def)
  let ?s = "startScan g"
  let ?t = "fold (testPair k) [0..<j] ?s"
  have sg: "scan_game ?s = g" by (simp add: startScan_def)
  have inv: "pass_inv k ?s j ?t" using j by (intro pass_inv_prefix) (simp add: sg)
  have same: "clots (scan_game ?t) ! j = clots g ! j"
    using pass_inv_nth [OF inv] j by (simp add: sg)
  have pul: "pulses (scan_game ?t) = pulses g" using inv by (simp add: pass_inv_def sg)
  have cmb: "combo (scan_game ?t) = combo g" using inv miss by (simp add: pass_inv_def sg)
  have "testPair k j ?t = hitClot k j ?t" using hit same pul by (simp add: testPair_def)
  then have "combo (scan_game (testPair k j ?t)) = combo g + 1"
    using cmb by (simp add: hitClot_frame)
  then show ?thesis by (simp add: scanUpTo_def t0)
qed

text \<open>
  Claim C7, amended. Take a frame of a playing game in which a pulse hits a clot, with
  elapsed time \<open>d0\<close>, followed by played frames \<open>ds\<close> without a hit, and then a frame
  whose scan has a first hit. The hit sets the combo timer to 1500; the timer is lowered by
  the elapsed time at the end of the frame of the hit itself and of every later frame, and
  the combo is zeroed as soon as the timer is at or below 0. So with the frame time counted
  from the start of the hit frame, \<open>d0 + sum ds\<close>: once it has reached 1500 ms the combo
  is 0 and the next hit makes it 1; while it is below 1500 ms the combo is what the scan of
  the hit frame left and the next hit raises it by one.
\<close>

theorem combo_window:
  assumes "state g = PLAYING" and "0 \<le> combo g" and "0 \<le> d0"
    and "\<not> noCollision (preCollision d0 g)"
    and "quietFrames ds (update d0 g)"
    and "firstHit (preCollision d (frames ds (update d0 g))) k j"
  shows "0 < combo (checkCollisions (preCollision d0 g))
       \<and> (1500 \<le> d0 + sum_list ds \<longrightarrow>
            combo (frames ds (update d0 g)) = 0
            \<and> combo (scan_game (scanUpTo (preCollision d (frames ds (update d0 g))) k j)) = 1)
       \<and> (d0 + sum_list ds < 1500 \<longrightarrow>
            combo (frames ds (update d0 g)) = combo (checkCollisions (preCollision d0 g))
            \<and> combo (scan_game (scanUpTo (preCollision d (frames ds (update d0 g))) k j))
                = combo (checkCollisions (preCollision d0 g)) + 1)"
proof -
  let ?c = "combo (checkCollisions (preCollision d0 g))"
  let ?g1 = "update d0 g"
  let ?h = "frames ds ?g1"
  from hit_frame [OF assms(1) assms(4) assms(2)]
  have hf: "combo ?g1 = (if 1500 \<le> d0 then 0 else ?c)" "comboTimer ?g1 = 1500 - d0" "0 < ?c"
    by simp_all
  have nn: "0 \<le> sum_list ds" if "quietFrames ds h" for h
    using that by (induction ds arbitrary: h) auto
  have next_hit: "combo (scan_game (scanUpTo (preCollision d ?h) k j)) = combo ?h + 1"
    using first_hit_combo [OF assms(6)] by (simp add: preCollision_keeps)
  have late: "combo ?h = 0" if "1500 \<le> d0 + sum_list ds"
  proof (cases "1500 \<le> d0")
    case True
    with hf quiet_run_zero [OF assms(5)] show ?thesis by simp
  next
    case False
    with hf have pos: "0 < combo ?g1" by simp
    have "ds \<noteq> []" using that False by auto
    with quiet_run [OF assms(5) pos] hf that show ?thesis by simp
  qed
  have early: "combo ?h = ?c" if "d0 + sum_list ds < 1500"
  proof -
    have small: "\<not> 1500 \<le> d0" using that nn [OF assms(5)] by linarith
    with hf have pos: "0 < combo ?g1" by simp
    from quiet_run [OF assms(5) pos] hf that small show ?thesis by simp
  qed
  from hf(3) late early next_hit show ?thesis by simp
qed

lemma comboGame_hit:
  "\<not> noCollision (preCollision 16 comboGame)
   \<and> combo (checkCollisions (preCollision 16 comboGame)) = 1"
  by (simp add: noCollision_def comboGame_def waitingClot_def oneHitLeft_eval update_defs)

lemma comboGame_frame: "update 16 comboGame = afterHitFrame"
  by (simp add: comboGame_def afterHitFrame_def waitingClot_def oneHitLeft_eval update_defs)

lemma afterHitFrame_quiet:
  "noCollision (preCollision 984 afterHitFrame) \<and> noCollision (preCollision 1484 afterHitFrame)"
  by (simp add: noCollision_def afterHitFrame_def waitingClot_def update_defs)

lemma afterHitFrame_quiet_frame: "update 984 afterHitFrame = afterQuietFrame"
  by (simp add: afterQuietFrame_def afterHitFrame_def waitingClot_def update_defs)

lemma afterHitFrame_late_frame: "update 1484 afterHitFrame = afterLateFrame"
  by (simp add: afterLateFrame_def afterHitFrame_def waitingClot_def update_defs)

lemma afterQuietFrame_next:
  "firstHit (preCollision 16 afterQuietFrame) 0 0
   \<and> combo (checkCollisions (preCollision 16 afterQuietFrame)) = 2"
  by (simp add: firstHit_def afterQuietFrame_def afterHitFrame_def waitingClot_def update_defs)

lemma afterLateFrame_next:
  "firstHit (preCollision 16 afterLateFrame) 0 0
   \<and> combo (checkCollisions (preCollision 16 afterLateFrame)) = 1"
  by (simp add: firstHit_def afterLateFrame_def afterHitFrame_def waitingClot_def update_defs)


lemma comboGame_start:
  "state comboGame = PLAYING \<and> combo comboGame = 0 \<and> state afterHitFrame = PLAYING
   \<and> combo afterHitFrame = 1 \<and> combo afterQuietFrame = 1 \<and> combo afterLateFrame = 0"
  by (simp add: comboGame_def startGame_def afterHitFrame_def afterQuietFrame_def afterLateFrame_def)

text \<open>
  Claim C7 as stated fails at the boundary: a hit in a frame of 16 ms and one hit-free
  frame of 1484 ms make 1500 ms, not more than 1.5 s, and the combo is reset all the same;
  the hit of the next frame makes it 1, not 2.
\<close>

theorem combo_boundary_counterexample:
  "state comboGame = PLAYING \<and> \<not> noCollision (preCollision 16 comboGame)
   \<and> combo (update 16 comboGame) = 1
   \<and> quietFrames [1484] (update 16 comboGame)
   \<and> (16::real) + sum_list [1484] = 1500
   \<and> combo (frames [1484] (update 16 comboGame)) = 0
   \<and> firstHit (preCollision 16 (frames [1484] (update 16 comboGame))) 0 0
   \<and> combo (checkCollisions (preCollision 16 (frames [1484] (update 16 comboGame)))) = 1"
  using comboGame_start comboGame_hit afterHitFrame_quiet afterLateFrame_next
  by (simp add: frames_def comboGame_frame afterHitFrame_late_frame)

text \<open>
  A hit in a frame of 16 ms, one hit-free frame and a frame with a hit: with 984 ms in
  between (the second hit 1000 ms after the first frame began) the combo is 2 after the
  second hit; with 1484 ms it is 1.
\<close>

theorem combo_window_witness:
  "state comboGame = PLAYING \<and> \<not> noCollision (preCollision 16 comboGame)
   \<and> quietFrames [984] (update 16 comboGame)
   \<and> firstHit (preCollision 16 (frames [984] (update 16 comboGame))) 0 0
   \<and> combo (frames [984] (update 16 comboGame)) = 1
   \<and> combo (scan_game (scanUpTo (preCollision 16 (frames [984] (update 16 comboGame))) 0 0)) = 2
   \<and> combo (checkCollisions (preCollision 16 (frames [984] (update 16 comboGame)))) = 2
   \<and> quietFrames [1484] (update 16 comboGame)
   \<and> firstHit (preCollision 16 (frames [1484] (update 16 comboGame))) 0 0
   \<and> combo (frames [1484] (update 16 comboGame)) = 0
   \<and> combo (scan_game (scanUpTo (preCollision 16 (frames [1484] (update 16 comboGame))) 0 0)) = 1"
proof -
  have f: "frames [984] afterHitFrame = afterQuietFrame"
    "frames [1484] afterHitFrame = afterLateFrame"
    by (simp_all add: frames_def afterHitFrame_quiet_frame afterHitFrame_late_frame)
  from comboGame_start comboGame_hit afterHitFrame_quiet afterQuietFrame_next afterLateFrame_next
    combo_window [of comboGame 16 "[984]" 16 0 0] combo_window [of comboGame 16 "[1484]" 16 0 0]
  show ?thesis by (simp add: f comboGame_frame)
qed

end
